theory Spec2Isabelle
  imports Main "HOL-Library.Word" "HOL-Library.Char_ord" "HOL-Library.List_Lexorder"
begin

section \<open>JSON documents and the number conversions of the Go library\<close>

text \<open>
  \<^verbatim>\<open>settings.go\<close> reads and writes the settings as JSON through \<^verbatim>\<open>encoding/json\<close>
  (\<^verbatim>\<open>json.Unmarshal\<close>, \<^verbatim>\<open>json.Marshal\<close>, and \<^verbatim>\<open>c.Bind\<close>, which decodes a JSON request
  body with the same decoder). The model works on the JSON value a text denotes: the
  lexical layer (white space, string escapes, the replacement of invalid UTF-8) is not
  part of it. An object keeps its members in the order of the text, repeated keys
  included, because the decoder walks them in that order. A number is kept as its
  literal, of a type \<open>'lit\<close> that the model does not look into.
\<close>

datatype 'lit json =
    JNull
  | JBool bool
  | JNum 'lit
  | JStr string
  | JArr "'lit json list"
  | JObj "(string \<times> 'lit json) list"

text \<open>
  The conversions between number literals and Go values belong to \<^verbatim>\<open>strconv\<close>; they are
  parameters of the model. \<open>ParseInt\<close> is \<^verbatim>\<open>strconv.ParseInt(lit, 10, 64)\<close> (\<open>None\<close> when the
  literal is not an integer literal, or is out of range), \<open>FormatInt\<close> the decimal
  writing of an \<^verbatim>\<open>int\<close>, \<open>ParseFloat\<close> the conversion to \<^verbatim>\<open>float64\<close> that the decoder uses
  for a number stored in an \<^verbatim>\<open>interface{}\<close> (\<open>None\<close> when out of range), and \<open>FormatFloat\<close>
  the writing of a \<^verbatim>\<open>float64\<close>, which \<^verbatim>\<open>json.Marshal\<close> refuses for NaN and the infinities
  (\<open>None\<close>). The type \<open>'f\<close> stands for \<^verbatim>\<open>float64\<close>. Go's \<^verbatim>\<open>int\<close> is taken at 64 bits.
\<close>

type_synonym go_int = "64 word"

record ('lit, 'f) strconv =
  ParseInt :: "'lit \<Rightarrow> go_int option"
  FormatInt :: "go_int \<Rightarrow> 'lit"
  ParseFloat :: "'lit \<Rightarrow> 'f option"
  FormatFloat :: "'f \<Rightarrow> 'lit option"

text \<open>
  What the claims below need of the conversions: a written \<^verbatim>\<open>int\<close> reads back as itself,
  and a \<^verbatim>\<open>float64\<close> that came out of \<open>ParseFloat\<close> can be written and reads back as itself
  (the shortest-digits formatting of Go round-trips every finite value).
\<close>

definition strconv_roundtrips :: "('lit, 'f) strconv \<Rightarrow> bool" where
  "strconv_roundtrips L =
     ((\<forall>n. ParseInt L (FormatInt L n) = Some n) \<and>
      (\<forall>l. case ParseFloat L l of
              None \<Rightarrow> True
            | Some f \<Rightarrow> (case FormatFloat L f of
                           None \<Rightarrow> False
                         | Some l' \<Rightarrow> ParseFloat L l' = Some f)))"

datatype json_error = SyntaxError | UnmarshalTypeError | UnsupportedValueError

text \<open>
  The values an \<^verbatim>\<open>interface{}\<close> holds after decoding JSON into it: \<^verbatim>\<open>nil\<close>, \<^verbatim>\<open>bool\<close>,
  \<^verbatim>\<open>float64\<close>, \<^verbatim>\<open>string\<close>, \<^verbatim>\<open>[]interface{}\<close> and \<^verbatim>\<open>map[string]interface{}\<close>. A Go map is
  represented by its entries in ascending order of the keys (bytewise, the order in
  which \<^verbatim>\<open>json.Marshal\<close> writes a map); \<open>map_put\<close> is the assignment \<^verbatim>\<open>m[k] = v\<close> on that
  representation.
\<close>

datatype 'f iface =
    INil
  | IBool bool
  | IFloat 'f
  | IString string
  | ISlice "'f iface list"
  | IMap "(string \<times> 'f iface) list"

fun map_put :: "string \<Rightarrow> 'v \<Rightarrow> (string \<times> 'v) list \<Rightarrow> (string \<times> 'v) list" where
  "map_put k v [] = [(k, v)]"
| "map_put k v ((k', v') # m) =
     (if k = k' then (k, v) # m
      else if k < k' then (k, v) # (k', v') # m
      else (k', v') # map_put k v m)"

definition sorted_keys :: "(string \<times> 'v) list \<Rightarrow> bool" where
  "sorted_keys m = sorted_wrt (<) (map fst m)"

subsection \<open>Decoding\<close>

text \<open>
  Each decoder takes the JSON value and the current content of the Go variable it
  decodes into, as \<^verbatim>\<open>encoding/json\<close> does: \<^verbatim>\<open>null\<close> leaves a string, a number, a bool or
  a struct as it is and sets a slice, a map or an interface to \<^verbatim>\<open>nil\<close>; a value of the
  wrong kind is an \<^verbatim>\<open>UnmarshalTypeError\<close>. (The decoder records the first such error
  and goes on; both handlers drop the document when an error comes back, so the model
  stops at the first error.)
\<close>

definition decode_string :: "'lit json \<Rightarrow> string \<Rightarrow> json_error + string" where
  "decode_string j cur =
     (case j of JNull \<Rightarrow> Inr cur | JStr s \<Rightarrow> Inr s | _ \<Rightarrow> Inl UnmarshalTypeError)"

definition decode_bool :: "'lit json \<Rightarrow> bool \<Rightarrow> json_error + bool" where
  "decode_bool j cur =
     (case j of JNull \<Rightarrow> Inr cur | JBool b \<Rightarrow> Inr b | _ \<Rightarrow> Inl UnmarshalTypeError)"

definition decode_int :: "('lit, 'f) strconv \<Rightarrow> 'lit json \<Rightarrow> go_int \<Rightarrow> json_error + go_int" where
  "decode_int L j cur =
     (case j of
        JNull \<Rightarrow> Inr cur
      | JNum l \<Rightarrow> (case ParseInt L l of None \<Rightarrow> Inl UnmarshalTypeError | Some n \<Rightarrow> Inr n)
      | _ \<Rightarrow> Inl UnmarshalTypeError)"

text \<open>
  A JSON array decoded into a slice: element \<open>i\<close> is decoded into the element the slice
  already has at \<open>i\<close>, or into a zero value beyond its length; the slice ends up with
  the length of the array, and \<^verbatim>\<open>[]\<close> gives an empty slice that is not \<^verbatim>\<open>nil\<close>. A slice is
  \<open>None\<close> when \<^verbatim>\<open>nil\<close>. (Memory between the length and the capacity of a slice that is
  decoded into a third time is not modelled: it reads as the zero value.)
\<close>

definition slice_elems :: "'a list option \<Rightarrow> 'a list" where
  "slice_elems s = (case s of None \<Rightarrow> [] | Some xs \<Rightarrow> xs)"

fun decode_elems ::
  "('lit json \<Rightarrow> 'a \<Rightarrow> json_error + 'a) \<Rightarrow> 'a \<Rightarrow> 'lit json list \<Rightarrow> 'a list \<Rightarrow> json_error + 'a list"
where
  "decode_elems dec z [] cur = Inr []"
| "decode_elems dec z (j # js) cur =
     (case dec j (case cur of [] \<Rightarrow> z | c # _ \<Rightarrow> c) of
        Inl e \<Rightarrow> Inl e
      | Inr x \<Rightarrow> (case decode_elems dec z js (tl cur) of
                    Inl e \<Rightarrow> Inl e
                  | Inr xs \<Rightarrow> Inr (x # xs)))"

definition decode_slice ::
  "('lit json \<Rightarrow> 'a \<Rightarrow> json_error + 'a) \<Rightarrow> 'a \<Rightarrow> 'lit json \<Rightarrow> 'a list option
     \<Rightarrow> json_error + 'a list option"
where
  "decode_slice dec z j cur =
     (case j of
        JNull \<Rightarrow> Inr None
      | JArr js \<Rightarrow> (case decode_elems dec z js (slice_elems cur) of
                     Inl e \<Rightarrow> Inl e
                   | Inr xs \<Rightarrow> Inr (Some xs))
      | _ \<Rightarrow> Inl UnmarshalTypeError)"

text \<open>A JSON object decoded into a \<^verbatim>\<open>map[string]string\<close>: the map is made when \<^verbatim>\<open>nil\<close>, and
  every member is decoded into a fresh string and assigned.\<close>

fun decode_map_kvs ::
  "(string \<times> 'lit json) list \<Rightarrow> (string \<times> string) list \<Rightarrow> json_error + (string \<times> string) list"
where
  "decode_map_kvs [] m = Inr m"
| "decode_map_kvs ((k, v) # kvs) m =
     (case decode_string v [] of
        Inl e \<Rightarrow> Inl e
      | Inr x \<Rightarrow> decode_map_kvs kvs (map_put k x m))"

definition decode_map ::
  "'lit json \<Rightarrow> (string \<times> string) list option \<Rightarrow> json_error + (string \<times> string) list option"
where
  "decode_map j cur =
     (case j of
        JNull \<Rightarrow> Inr None
      | JObj kvs \<Rightarrow> (case decode_map_kvs kvs (slice_elems cur) of
                      Inl e \<Rightarrow> Inl e
                    | Inr m \<Rightarrow> Inr (Some m))
      | _ \<Rightarrow> Inl UnmarshalTypeError)"

text \<open>A JSON value decoded into an \<^verbatim>\<open>interface{}\<close> replaces what it held.\<close>

fun decode_iface :: "('lit, 'f) strconv \<Rightarrow> 'lit json \<Rightarrow> json_error + 'f iface"
  and decode_iface_list :: "('lit, 'f) strconv \<Rightarrow> 'lit json list \<Rightarrow> json_error + 'f iface list"
  and decode_iface_kvs ::
    "('lit, 'f) strconv \<Rightarrow> (string \<times> 'lit json) list \<Rightarrow> (string \<times> 'f iface) list
       \<Rightarrow> json_error + (string \<times> 'f iface) list"
where
  "decode_iface L JNull = Inr INil"
| "decode_iface L (JBool b) = Inr (IBool b)"
| "decode_iface L (JNum l) =
     (case ParseFloat L l of None \<Rightarrow> Inl UnmarshalTypeError | Some f \<Rightarrow> Inr (IFloat f))"
| "decode_iface L (JStr s) = Inr (IString s)"
| "decode_iface L (JArr js) =
     (case decode_iface_list L js of Inl e \<Rightarrow> Inl e | Inr xs \<Rightarrow> Inr (ISlice xs))"
| "decode_iface L (JObj kvs) =
     (case decode_iface_kvs L kvs [] of Inl e \<Rightarrow> Inl e | Inr m \<Rightarrow> Inr (IMap m))"
| "decode_iface_list L [] = Inr []"
| "decode_iface_list L (j # js) =
     (case decode_iface L j of
        Inl e \<Rightarrow> Inl e
      | Inr x \<Rightarrow> (case decode_iface_list L js of Inl e \<Rightarrow> Inl e | Inr xs \<Rightarrow> Inr (x # xs)))"
| "decode_iface_kvs L [] m = Inr m"
| "decode_iface_kvs L ((k, v) # kvs) m =
     (case decode_iface L v of
        Inl e \<Rightarrow> Inl e
      | Inr x \<Rightarrow> decode_iface_kvs L kvs (map_put k x m))"

definition decode_iface_into ::
  "('lit, 'f) strconv \<Rightarrow> 'lit json \<Rightarrow> 'f iface \<Rightarrow> json_error + 'f iface"
where
  "decode_iface_into L j cur = decode_iface L j"

subsection \<open>Encoding\<close>

definition encode_int :: "('lit, 'f) strconv \<Rightarrow> go_int \<Rightarrow> 'lit json" where
  "encode_int L n = JNum (FormatInt L n)"

definition encode_slice :: "('a \<Rightarrow> 'lit json) \<Rightarrow> 'a list option \<Rightarrow> 'lit json" where
  "encode_slice enc s = (case s of None \<Rightarrow> JNull | Some xs \<Rightarrow> JArr (map enc xs))"

definition encode_map :: "(string \<times> string) list option \<Rightarrow> 'lit json" where
  "encode_map m = (case m of None \<Rightarrow> JNull | Some kvs \<Rightarrow> JObj (map (\<lambda>(k, v). (k, JStr v)) kvs))"

fun encode_iface :: "('lit, 'f) strconv \<Rightarrow> 'f iface \<Rightarrow> json_error + 'lit json"
  and encode_iface_list :: "('lit, 'f) strconv \<Rightarrow> 'f iface list \<Rightarrow> json_error + 'lit json list"
  and encode_iface_kvs ::
    "('lit, 'f) strconv \<Rightarrow> (string \<times> 'f iface) list \<Rightarrow> json_error + (string \<times> 'lit json) list"
where
  "encode_iface L INil = Inr JNull"
| "encode_iface L (IBool b) = Inr (JBool b)"
| "encode_iface L (IFloat f) =
     (case FormatFloat L f of None \<Rightarrow> Inl UnsupportedValueError | Some l \<Rightarrow> Inr (JNum l))"
| "encode_iface L (IString s) = Inr (JStr s)"
| "encode_iface L (ISlice xs) =
     (case encode_iface_list L xs of Inl e \<Rightarrow> Inl e | Inr js \<Rightarrow> Inr (JArr js))"
| "encode_iface L (IMap m) =
     (case encode_iface_kvs L m of Inl e \<Rightarrow> Inl e | Inr kvs \<Rightarrow> Inr (JObj kvs))"
| "encode_iface_list L [] = Inr []"
| "encode_iface_list L (x # xs) =
     (case encode_iface L x of
        Inl e \<Rightarrow> Inl e
      | Inr j \<Rightarrow> (case encode_iface_list L xs of Inl e \<Rightarrow> Inl e | Inr js \<Rightarrow> Inr (j # js)))"
| "encode_iface_kvs L [] = Inr []"
| "encode_iface_kvs L ((k, x) # m) =
     (case encode_iface L x of
        Inl e \<Rightarrow> Inl e
      | Inr j \<Rightarrow> (case encode_iface_kvs L m of Inl e \<Rightarrow> Inl e | Inr kvs \<Rightarrow> Inr ((k, j) # kvs)))"


section \<open>The settings document\<close>

text \<open>
  The struct \<^verbatim>\<open>settings\<close> and the struct of its \<^verbatim>\<open>SMTP\<close> blocks, field by field. A slice is
  an optional list (\<open>None\<close> is \<^verbatim>\<open>nil\<close>, which JSON writes as \<^verbatim>\<open>null\<close>).
\<close>

record smtp =
  Enabled :: bool
  Host :: string
  HelloHostname :: string
  Port :: go_int
  AuthProtocol :: string
  Username :: string
  Password :: string
  EmailHeaders :: "(string \<times> string) list option list option"
  MaxConns :: go_int
  MaxMsgRetries :: go_int
  IdleTimeout :: string
  WaitTimeout :: string
  TLSEnabled :: bool
  TLSSkipVerify :: bool

record 'f settings =
  AppRootURL :: string
  AppLogoURL :: string
  AppFaviconURL :: string
  AppFromEmail :: string
  AppNotifyEmails :: "string list option"
  AppBatchSize :: go_int
  AppConcurrency :: go_int
  AppMaxSendErrors :: go_int
  AppMessageRate :: go_int
  Messengers :: "'f iface list option"
  PrivacyAllowBlacklist :: bool
  PrivacyAllowExport :: bool
  PrivacyAllowWipe :: bool
  PrivacyExportable :: "string list option"
  SMTP :: "smtp list option"
  UploadProvider :: string
  UploadFilesystemUploadPath :: string
  UploadFilesystemUploadURI :: string
  UploadS3AwsAccessKeyID :: string
  UploadS3AwsDefaultRegion :: string
  UploadS3AwsSecretAccessKey :: string
  UploadS3Bucket :: string
  UploadS3BucketDomain :: string
  UploadS3BucketPath :: string
  UploadS3BucketType :: string
  UploadS3Expiry :: go_int

text \<open>The zero values (\<^verbatim>\<open>var s settings\<close>).\<close>

definition zero_smtp :: smtp where
  "zero_smtp =
     \<lparr>Enabled = False, Host = [], HelloHostname = [], Port = 0, AuthProtocol = [],
      Username = [], Password = [], EmailHeaders = None, MaxConns = 0, MaxMsgRetries = 0,
      IdleTimeout = [], WaitTimeout = [], TLSEnabled = False, TLSSkipVerify = False\<rparr>"

definition zero_settings :: "'f settings" where
  "zero_settings =
     \<lparr>AppRootURL = [], AppLogoURL = [], AppFaviconURL = [], AppFromEmail = [],
      AppNotifyEmails = None, AppBatchSize = 0, AppConcurrency = 0, AppMaxSendErrors = 0,
      AppMessageRate = 0, Messengers = None, PrivacyAllowBlacklist = False,
      PrivacyAllowExport = False, PrivacyAllowWipe = False, PrivacyExportable = None,
      SMTP = None, UploadProvider = [], UploadFilesystemUploadPath = [],
      UploadFilesystemUploadURI = [], UploadS3AwsAccessKeyID = [],
      UploadS3AwsDefaultRegion = [], UploadS3AwsSecretAccessKey = [], UploadS3Bucket = [],
      UploadS3BucketDomain = [], UploadS3BucketPath = [], UploadS3BucketType = [],
      UploadS3Expiry = 0\<rparr>"

subsection \<open>The JSON names of the fields\<close>

datatype smtp_field =
    F_Enabled | F_Host | F_HelloHostname | F_Port | F_AuthProtocol | F_Username | F_Password
  | F_EmailHeaders | F_MaxConns | F_MaxMsgRetries | F_IdleTimeout | F_WaitTimeout
  | F_TLSEnabled | F_TLSSkipVerify

fun smtp_tag :: "smtp_field \<Rightarrow> string" where
  "smtp_tag F_Enabled = ''enabled''"
| "smtp_tag F_Host = ''host''"
| "smtp_tag F_HelloHostname = ''hello_hostname''"
| "smtp_tag F_Port = ''port''"
| "smtp_tag F_AuthProtocol = ''auth_protocol''"
| "smtp_tag F_Username = ''username''"
| "smtp_tag F_Password = ''password''"
| "smtp_tag F_EmailHeaders = ''email_headers''"
| "smtp_tag F_MaxConns = ''max_conns''"
| "smtp_tag F_MaxMsgRetries = ''max_msg_retries''"
| "smtp_tag F_IdleTimeout = ''idle_timeout''"
| "smtp_tag F_WaitTimeout = ''wait_timeout''"
| "smtp_tag F_TLSEnabled = ''tls_enabled''"
| "smtp_tag F_TLSSkipVerify = ''tls_skip_verify''"

definition smtp_fields :: "smtp_field list" where
  "smtp_fields =
     [F_Enabled, F_Host, F_HelloHostname, F_Port, F_AuthProtocol, F_Username, F_Password,
      F_EmailHeaders, F_MaxConns, F_MaxMsgRetries, F_IdleTimeout, F_WaitTimeout,
      F_TLSEnabled, F_TLSSkipVerify]"

datatype settings_field =
    F_AppRootURL | F_AppLogoURL | F_AppFaviconURL | F_AppFromEmail | F_AppNotifyEmails
  | F_AppBatchSize | F_AppConcurrency | F_AppMaxSendErrors | F_AppMessageRate
  | F_Messengers
  | F_PrivacyAllowBlacklist | F_PrivacyAllowExport | F_PrivacyAllowWipe | F_PrivacyExportable
  | F_SMTP
  | F_UploadProvider | F_UploadFilesystemUploadPath | F_UploadFilesystemUploadURI
  | F_UploadS3AwsAccessKeyID | F_UploadS3AwsDefaultRegion | F_UploadS3AwsSecretAccessKey
  | F_UploadS3Bucket | F_UploadS3BucketDomain | F_UploadS3BucketPath | F_UploadS3BucketType
  | F_UploadS3Expiry

fun settings_tag :: "settings_field \<Rightarrow> string" where
  "settings_tag F_AppRootURL = ''app.root_url''"
| "settings_tag F_AppLogoURL = ''app.logo_url''"
| "settings_tag F_AppFaviconURL = ''app.favicon_url''"
| "settings_tag F_AppFromEmail = ''app.from_email''"
| "settings_tag F_AppNotifyEmails = ''app.notify_emails''"
| "settings_tag F_AppBatchSize = ''app.batch_size''"
| "settings_tag F_AppConcurrency = ''app.concurrency''"
| "settings_tag F_AppMaxSendErrors = ''app.max_send_errors''"
| "settings_tag F_AppMessageRate = ''app.message_rate''"
| "settings_tag F_Messengers = ''messengers''"
| "settings_tag F_PrivacyAllowBlacklist = ''privacy.allow_blacklist''"
| "settings_tag F_PrivacyAllowExport = ''privacy.allow_export''"
| "settings_tag F_PrivacyAllowWipe = ''privacy.allow_wipe''"
| "settings_tag F_PrivacyExportable = ''privacy.exportable''"
| "settings_tag F_SMTP = ''smtp''"
| "settings_tag F_UploadProvider = ''upload.provider''"
| "settings_tag F_UploadFilesystemUploadPath = ''upload.filesystem.upload_path''"
| "settings_tag F_UploadFilesystemUploadURI = ''upload.filesystem.upload_uri''"
| "settings_tag F_UploadS3AwsAccessKeyID = ''upload.s3.aws_access_key_id''"
| "settings_tag F_UploadS3AwsDefaultRegion = ''upload.s3.aws_default_region''"
| "settings_tag F_UploadS3AwsSecretAccessKey = ''upload.s3.aws_secret_access_key''"
| "settings_tag F_UploadS3Bucket = ''upload.s3.bucket''"
| "settings_tag F_UploadS3BucketDomain = ''upload.s3.bucket_domain''"
| "settings_tag F_UploadS3BucketPath = ''upload.s3.bucket_path''"
| "settings_tag F_UploadS3BucketType = ''upload.s3.bucket_type''"
| "settings_tag F_UploadS3Expiry = ''upload.s3.expiry''"

definition settings_fields :: "settings_field list" where
  "settings_fields =
     [F_AppRootURL, F_AppLogoURL, F_AppFaviconURL, F_AppFromEmail, F_AppNotifyEmails,
      F_AppBatchSize, F_AppConcurrency, F_AppMaxSendErrors, F_AppMessageRate, F_Messengers,
      F_PrivacyAllowBlacklist, F_PrivacyAllowExport, F_PrivacyAllowWipe, F_PrivacyExportable,
      F_SMTP, F_UploadProvider, F_UploadFilesystemUploadPath, F_UploadFilesystemUploadURI,
      F_UploadS3AwsAccessKeyID, F_UploadS3AwsDefaultRegion, F_UploadS3AwsSecretAccessKey,
      F_UploadS3Bucket, F_UploadS3BucketDomain, F_UploadS3BucketPath, F_UploadS3BucketType,
      F_UploadS3Expiry]"

text \<open>
  The decoder matches a key of the object to a field by name, ignoring case: the two
  names are equal after folding, which puts an ASCII letter in upper case and takes the
  two runes that fold to an ASCII letter, U+017F (long s, bytes C5 BF) and U+212A (the
  Kelvin sign, bytes E2 84 AA), to \<open>S\<close> and \<open>K\<close>. No other rune folds to a character of
  a field name, so other bytes are left as they are. Of several fields that match, the
  first in the order of the struct is taken.
\<close>

definition upper_ascii :: "char \<Rightarrow> char" where
  "upper_ascii c =
     (if CHR ''a'' \<le> c \<and> c \<le> CHR ''z'' then char_of (of_char c - (32::nat)) else c)"

fun foldName :: "string \<Rightarrow> string" where
  "foldName [] = []"
| "foldName (c # cs) =
     (if c = CHR 0xC5 \<and> take 1 cs = [CHR 0xBF] then CHR ''S'' # foldName (drop 1 cs)
      else if c = CHR 0xE2 \<and> take 2 cs = [CHR 0x84, CHR 0xAA] then CHR ''K'' # foldName (drop 2 cs)
      else upper_ascii c # foldName cs)"

definition find_field :: "('fld \<Rightarrow> string) \<Rightarrow> 'fld list \<Rightarrow> string \<Rightarrow> 'fld option" where
  "find_field tag flds k = find (\<lambda>f. foldName (tag f) = foldName k) flds"

text \<open>
  A JSON object decoded into a struct: the members are taken in their order; a key that
  matches no field is skipped with its value; the value of a key that matches a field is
  decoded into that field.
\<close>

fun decode_members ::
  "(string \<Rightarrow> 'fld option) \<Rightarrow> ('fld \<Rightarrow> 'lit json \<Rightarrow> 's \<Rightarrow> json_error + 's)
     \<Rightarrow> (string \<times> 'lit json) list \<Rightarrow> 's \<Rightarrow> json_error + 's"
where
  "decode_members fnd st [] s = Inr s"
| "decode_members fnd st ((k, v) # kvs) s =
     (case fnd k of
        None \<Rightarrow> decode_members fnd st kvs s
      | Some f \<Rightarrow> (case st f v s of
                    Inl e \<Rightarrow> Inl e
                  | Inr s' \<Rightarrow> decode_members fnd st kvs s'))"

definition decode_struct ::
  "(string \<Rightarrow> 'fld option) \<Rightarrow> ('fld \<Rightarrow> 'lit json \<Rightarrow> 's \<Rightarrow> json_error + 's)
     \<Rightarrow> 'lit json \<Rightarrow> 's \<Rightarrow> json_error + 's"
where
  "decode_struct fnd st j s =
     (case j of
        JNull \<Rightarrow> Inr s
      | JObj kvs \<Rightarrow> decode_members fnd st kvs s
      | _ \<Rightarrow> Inl UnmarshalTypeError)"

definition assign :: "('a \<Rightarrow> 's) \<Rightarrow> json_error + 'a \<Rightarrow> json_error + 's" where
  "assign upd r = (case r of Inl e \<Rightarrow> Inl e | Inr x \<Rightarrow> Inr (upd x))"

fun set_smtp_field :: "('lit, 'f) strconv \<Rightarrow> smtp_field \<Rightarrow> 'lit json \<Rightarrow> smtp \<Rightarrow> json_error + smtp" where
  "set_smtp_field L F_Enabled j b = assign (\<lambda>x. b\<lparr>Enabled := x\<rparr>) (decode_bool j (Enabled b))"
| "set_smtp_field L F_Host j b = assign (\<lambda>x. b\<lparr>Host := x\<rparr>) (decode_string j (Host b))"
| "set_smtp_field L F_HelloHostname j b =
     assign (\<lambda>x. b\<lparr>HelloHostname := x\<rparr>) (decode_string j (HelloHostname b))"
| "set_smtp_field L F_Port j b = assign (\<lambda>x. b\<lparr>Port := x\<rparr>) (decode_int L j (Port b))"
| "set_smtp_field L F_AuthProtocol j b =
     assign (\<lambda>x. b\<lparr>AuthProtocol := x\<rparr>) (decode_string j (AuthProtocol b))"
| "set_smtp_field L F_Username j b =
     assign (\<lambda>x. b\<lparr>Username := x\<rparr>) (decode_string j (Username b))"
| "set_smtp_field L F_Password j b =
     assign (\<lambda>x. b\<lparr>Password := x\<rparr>) (decode_string j (Password b))"
| "set_smtp_field L F_EmailHeaders j b =
     assign (\<lambda>x. b\<lparr>EmailHeaders := x\<rparr>) (decode_slice decode_map None j (EmailHeaders b))"
| "set_smtp_field L F_MaxConns j b =
     assign (\<lambda>x. b\<lparr>MaxConns := x\<rparr>) (decode_int L j (MaxConns b))"
| "set_smtp_field L F_MaxMsgRetries j b =
     assign (\<lambda>x. b\<lparr>MaxMsgRetries := x\<rparr>) (decode_int L j (MaxMsgRetries b))"
| "set_smtp_field L F_IdleTimeout j b =
     assign (\<lambda>x. b\<lparr>IdleTimeout := x\<rparr>) (decode_string j (IdleTimeout b))"
| "set_smtp_field L F_WaitTimeout j b =
     assign (\<lambda>x. b\<lparr>WaitTimeout := x\<rparr>) (decode_string j (WaitTimeout b))"
| "set_smtp_field L F_TLSEnabled j b =
     assign (\<lambda>x. b\<lparr>TLSEnabled := x\<rparr>) (decode_bool j (TLSEnabled b))"
| "set_smtp_field L F_TLSSkipVerify j b =
     assign (\<lambda>x. b\<lparr>TLSSkipVerify := x\<rparr>) (decode_bool j (TLSSkipVerify b))"

definition decode_smtp :: "('lit, 'f) strconv \<Rightarrow> 'lit json \<Rightarrow> smtp \<Rightarrow> json_error + smtp" where
  "decode_smtp L = decode_struct (find_field smtp_tag smtp_fields) (set_smtp_field L)"

fun set_field ::
  "('lit, 'f) strconv \<Rightarrow> settings_field \<Rightarrow> 'lit json \<Rightarrow> 'f settings \<Rightarrow> json_error + 'f settings"
where
  "set_field L F_AppRootURL j s =
     assign (\<lambda>x. s\<lparr>AppRootURL := x\<rparr>) (decode_string j (AppRootURL s))"
| "set_field L F_AppLogoURL j s =
     assign (\<lambda>x. s\<lparr>AppLogoURL := x\<rparr>) (decode_string j (AppLogoURL s))"
| "set_field L F_AppFaviconURL j s =
     assign (\<lambda>x. s\<lparr>AppFaviconURL := x\<rparr>) (decode_string j (AppFaviconURL s))"
| "set_field L F_AppFromEmail j s =
     assign (\<lambda>x. s\<lparr>AppFromEmail := x\<rparr>) (decode_string j (AppFromEmail s))"
| "set_field L F_AppNotifyEmails j s =
     assign (\<lambda>x. s\<lparr>AppNotifyEmails := x\<rparr>)
       (decode_slice decode_string [] j (AppNotifyEmails s))"
| "set_field L F_AppBatchSize j s =
     assign (\<lambda>x. s\<lparr>AppBatchSize := x\<rparr>) (decode_int L j (AppBatchSize s))"
| "set_field L F_AppConcurrency j s =
     assign (\<lambda>x. s\<lparr>AppConcurrency := x\<rparr>) (decode_int L j (AppConcurrency s))"
| "set_field L F_AppMaxSendErrors j s =
     assign (\<lambda>x. s\<lparr>AppMaxSendErrors := x\<rparr>) (decode_int L j (AppMaxSendErrors s))"
| "set_field L F_AppMessageRate j s =
     assign (\<lambda>x. s\<lparr>AppMessageRate := x\<rparr>) (decode_int L j (AppMessageRate s))"
| "set_field L F_Messengers j s =
     assign (\<lambda>x. s\<lparr>Messengers := x\<rparr>)
       (decode_slice (decode_iface_into L) INil j (Messengers s))"
| "set_field L F_PrivacyAllowBlacklist j s =
     assign (\<lambda>x. s\<lparr>PrivacyAllowBlacklist := x\<rparr>) (decode_bool j (PrivacyAllowBlacklist s))"
| "set_field L F_PrivacyAllowExport j s =
     assign (\<lambda>x. s\<lparr>PrivacyAllowExport := x\<rparr>) (decode_bool j (PrivacyAllowExport s))"
| "set_field L F_PrivacyAllowWipe j s =
     assign (\<lambda>x. s\<lparr>PrivacyAllowWipe := x\<rparr>) (decode_bool j (PrivacyAllowWipe s))"
| "set_field L F_PrivacyExportable j s =
     assign (\<lambda>x. s\<lparr>PrivacyExportable := x\<rparr>)
       (decode_slice decode_string [] j (PrivacyExportable s))"
| "set_field L F_SMTP j s =
     assign (\<lambda>x. s\<lparr>SMTP := x\<rparr>) (decode_slice (decode_smtp L) zero_smtp j (SMTP s))"
| "set_field L F_UploadProvider j s =
     assign (\<lambda>x. s\<lparr>UploadProvider := x\<rparr>) (decode_string j (UploadProvider s))"
| "set_field L F_UploadFilesystemUploadPath j s =
     assign (\<lambda>x. s\<lparr>UploadFilesystemUploadPath := x\<rparr>)
       (decode_string j (UploadFilesystemUploadPath s))"
| "set_field L F_UploadFilesystemUploadURI j s =
     assign (\<lambda>x. s\<lparr>UploadFilesystemUploadURI := x\<rparr>)
       (decode_string j (UploadFilesystemUploadURI s))"
| "set_field L F_UploadS3AwsAccessKeyID j s =
     assign (\<lambda>x. s\<lparr>UploadS3AwsAccessKeyID := x\<rparr>) (decode_string j (UploadS3AwsAccessKeyID s))"
| "set_field L F_UploadS3AwsDefaultRegion j s =
     assign (\<lambda>x. s\<lparr>UploadS3AwsDefaultRegion := x\<rparr>)
       (decode_string j (UploadS3AwsDefaultRegion s))"
| "set_field L F_UploadS3AwsSecretAccessKey j s =
     assign (\<lambda>x. s\<lparr>UploadS3AwsSecretAccessKey := x\<rparr>)
       (decode_string j (UploadS3AwsSecretAccessKey s))"
| "set_field L F_UploadS3Bucket j s =
     assign (\<lambda>x. s\<lparr>UploadS3Bucket := x\<rparr>) (decode_string j (UploadS3Bucket s))"
| "set_field L F_UploadS3BucketDomain j s =
     assign (\<lambda>x. s\<lparr>UploadS3BucketDomain := x\<rparr>) (decode_string j (UploadS3BucketDomain s))"
| "set_field L F_UploadS3BucketPath j s =
     assign (\<lambda>x. s\<lparr>UploadS3BucketPath := x\<rparr>) (decode_string j (UploadS3BucketPath s))"
| "set_field L F_UploadS3BucketType j s =
     assign (\<lambda>x. s\<lparr>UploadS3BucketType := x\<rparr>) (decode_string j (UploadS3BucketType s))"
| "set_field L F_UploadS3Expiry j s =
     assign (\<lambda>x. s\<lparr>UploadS3Expiry := x\<rparr>) (decode_int L j (UploadS3Expiry s))"

text \<open>\<^verbatim>\<open>json.Unmarshal(data, &s)\<close> on the JSON value \<open>j\<close> of \<^verbatim>\<open>data\<close>, for a \<^verbatim>\<open>settings\<close> variable
  that holds \<open>s\<close>.\<close>

definition json_Unmarshal ::
  "('lit, 'f) strconv \<Rightarrow> 'lit json \<Rightarrow> 'f settings \<Rightarrow> json_error + 'f settings"
where
  "json_Unmarshal L = decode_struct (find_field settings_tag settings_fields) (set_field L)"

subsection \<open>\<^verbatim>\<open>json.Marshal\<close> of the settings\<close>

text \<open>
  A struct is written as an object with one member for each field, in the order of the
  struct, under the name of its tag (no field has \<^verbatim>\<open>omitempty\<close>). The only values that can
  make \<^verbatim>\<open>json.Marshal\<close> fail are the ones under \<^verbatim>\<open>Messengers\<close>.
\<close>

fun encode_smtp_field :: "('lit, 'f) strconv \<Rightarrow> smtp_field \<Rightarrow> smtp \<Rightarrow> 'lit json" where
  "encode_smtp_field L F_Enabled b = JBool (Enabled b)"
| "encode_smtp_field L F_Host b = JStr (Host b)"
| "encode_smtp_field L F_HelloHostname b = JStr (HelloHostname b)"
| "encode_smtp_field L F_Port b = encode_int L (Port b)"
| "encode_smtp_field L F_AuthProtocol b = JStr (AuthProtocol b)"
| "encode_smtp_field L F_Username b = JStr (Username b)"
| "encode_smtp_field L F_Password b = JStr (Password b)"
| "encode_smtp_field L F_EmailHeaders b = encode_slice encode_map (EmailHeaders b)"
| "encode_smtp_field L F_MaxConns b = encode_int L (MaxConns b)"
| "encode_smtp_field L F_MaxMsgRetries b = encode_int L (MaxMsgRetries b)"
| "encode_smtp_field L F_IdleTimeout b = JStr (IdleTimeout b)"
| "encode_smtp_field L F_WaitTimeout b = JStr (WaitTimeout b)"
| "encode_smtp_field L F_TLSEnabled b = JBool (TLSEnabled b)"
| "encode_smtp_field L F_TLSSkipVerify b = JBool (TLSSkipVerify b)"

definition encode_smtp :: "('lit, 'f) strconv \<Rightarrow> smtp \<Rightarrow> 'lit json" where
  "encode_smtp L b = JObj (map (\<lambda>f. (smtp_tag f, encode_smtp_field L f b)) smtp_fields)"

fun encode_field ::
  "('lit, 'f) strconv \<Rightarrow> settings_field \<Rightarrow> 'f settings \<Rightarrow> json_error + 'lit json"
where
  "encode_field L F_AppRootURL s = Inr (JStr (AppRootURL s))"
| "encode_field L F_AppLogoURL s = Inr (JStr (AppLogoURL s))"
| "encode_field L F_AppFaviconURL s = Inr (JStr (AppFaviconURL s))"
| "encode_field L F_AppFromEmail s = Inr (JStr (AppFromEmail s))"
| "encode_field L F_AppNotifyEmails s = Inr (encode_slice JStr (AppNotifyEmails s))"
| "encode_field L F_AppBatchSize s = Inr (encode_int L (AppBatchSize s))"
| "encode_field L F_AppConcurrency s = Inr (encode_int L (AppConcurrency s))"
| "encode_field L F_AppMaxSendErrors s = Inr (encode_int L (AppMaxSendErrors s))"
| "encode_field L F_AppMessageRate s = Inr (encode_int L (AppMessageRate s))"
| "encode_field L F_Messengers s =
     (case Messengers s of
        None \<Rightarrow> Inr JNull
      | Some xs \<Rightarrow> (case encode_iface_list L xs of Inl e \<Rightarrow> Inl e | Inr js \<Rightarrow> Inr (JArr js)))"
| "encode_field L F_PrivacyAllowBlacklist s = Inr (JBool (PrivacyAllowBlacklist s))"
| "encode_field L F_PrivacyAllowExport s = Inr (JBool (PrivacyAllowExport s))"
| "encode_field L F_PrivacyAllowWipe s = Inr (JBool (PrivacyAllowWipe s))"
| "encode_field L F_PrivacyExportable s = Inr (encode_slice JStr (PrivacyExportable s))"
| "encode_field L F_SMTP s = Inr (encode_slice (encode_smtp L) (SMTP s))"
| "encode_field L F_UploadProvider s = Inr (JStr (UploadProvider s))"
| "encode_field L F_UploadFilesystemUploadPath s = Inr (JStr (UploadFilesystemUploadPath s))"
| "encode_field L F_UploadFilesystemUploadURI s = Inr (JStr (UploadFilesystemUploadURI s))"
| "encode_field L F_UploadS3AwsAccessKeyID s = Inr (JStr (UploadS3AwsAccessKeyID s))"
| "encode_field L F_UploadS3AwsDefaultRegion s = Inr (JStr (UploadS3AwsDefaultRegion s))"
| "encode_field L F_UploadS3AwsSecretAccessKey s = Inr (JStr (UploadS3AwsSecretAccessKey s))"
| "encode_field L F_UploadS3Bucket s = Inr (JStr (UploadS3Bucket s))"
| "encode_field L F_UploadS3BucketDomain s = Inr (JStr (UploadS3BucketDomain s))"
| "encode_field L F_UploadS3BucketPath s = Inr (JStr (UploadS3BucketPath s))"
| "encode_field L F_UploadS3BucketType s = Inr (JStr (UploadS3BucketType s))"
| "encode_field L F_UploadS3Expiry s = Inr (encode_int L (UploadS3Expiry s))"

fun encode_members ::
  "('lit, 'f) strconv \<Rightarrow> settings_field list \<Rightarrow> 'f settings
     \<Rightarrow> json_error + (string \<times> 'lit json) list"
where
  "encode_members L [] s = Inr []"
| "encode_members L (f # fs) s =
     (case encode_field L f s of
        Inl e \<Rightarrow> Inl e
      | Inr j \<Rightarrow> (case encode_members L fs s of
                    Inl e \<Rightarrow> Inl e
                  | Inr kvs \<Rightarrow> Inr ((settings_tag f, j) # kvs)))"

definition json_Marshal :: "('lit, 'f) strconv \<Rightarrow> 'f settings \<Rightarrow> json_error + 'lit json" where
  "json_Marshal L s =
     (case encode_members L settings_fields s of Inl e \<Rightarrow> Inl e | Inr kvs \<Rightarrow> Inr (JObj kvs))"


text \<open>
  Decoding into a fresh \<^verbatim>\<open>settings\<close> and encoding the result: the step that the comment at
  line 98 calls sanitizing the settings blob (lines 98 to 107, for a JSON body).
\<close>

definition sanitize :: "('lit, 'f) strconv \<Rightarrow> 'lit json \<Rightarrow> json_error + 'lit json" where
  "sanitize L x =
     (case json_Unmarshal L x zero_settings of Inl e \<Rightarrow> Inl e | Inr s \<Rightarrow> json_Marshal L s)"

text \<open>
  The zero values written out as JSON: what \<^verbatim>\<open>json.Marshal\<close> gives for a \<^verbatim>\<open>settings\<close> that
  nothing was decoded into, and for such an SMTP block (lemmas \<open>json_Marshal_zero\<close> and
  \<open>encode_smtp_zero\<close>).
\<close>

definition zero_document :: "('lit, 'f) strconv \<Rightarrow> 'lit json" where
  "zero_document L =
     JObj
       [(''app.root_url'', JStr []), (''app.logo_url'', JStr []), (''app.favicon_url'', JStr []),
        (''app.from_email'', JStr []), (''app.notify_emails'', JNull),
        (''app.batch_size'', JNum (FormatInt L 0)), (''app.concurrency'', JNum (FormatInt L 0)),
        (''app.max_send_errors'', JNum (FormatInt L 0)),
        (''app.message_rate'', JNum (FormatInt L 0)), (''messengers'', JNull),
        (''privacy.allow_blacklist'', JBool False), (''privacy.allow_export'', JBool False),
        (''privacy.allow_wipe'', JBool False), (''privacy.exportable'', JNull),
        (''smtp'', JNull), (''upload.provider'', JStr []),
        (''upload.filesystem.upload_path'', JStr []), (''upload.filesystem.upload_uri'', JStr []),
        (''upload.s3.aws_access_key_id'', JStr []), (''upload.s3.aws_default_region'', JStr []),
        (''upload.s3.aws_secret_access_key'', JStr []), (''upload.s3.bucket'', JStr []),
        (''upload.s3.bucket_domain'', JStr []), (''upload.s3.bucket_path'', JStr []),
        (''upload.s3.bucket_type'', JStr []), (''upload.s3.expiry'', JNum (FormatInt L 0))]"

definition zero_block :: "('lit, 'f) strconv \<Rightarrow> 'lit json" where
  "zero_block L =
     JObj [(''enabled'', JBool False), (''host'', JStr []), (''hello_hostname'', JStr []),
           (''port'', JNum (FormatInt L 0)), (''auth_protocol'', JStr []),
           (''username'', JStr []), (''password'', JStr []), (''email_headers'', JNull),
           (''max_conns'', JNum (FormatInt L 0)), (''max_msg_retries'', JNum (FormatInt L 0)),
           (''idle_timeout'', JStr []), (''wait_timeout'', JStr []),
           (''tls_enabled'', JBool False), (''tls_skip_verify'', JBool False)]"

section \<open>The application state and its collaborators\<close>

text \<open>
  What the two handlers reach through \<^verbatim>\<open>app\<close>: the settings held by the database, the flag
  \<^verbatim>\<open>app.needsRestart\<close>, and the background tasks launched so far, each of which waits
  for its delay (in milliseconds) and then sends its signal on \<^verbatim>\<open>app.sigChan\<close>. The
  handlers are modelled one request at a time: \<^verbatim>\<open>app.Lock()\<close> and \<^verbatim>\<open>app.Unlock()\<close> around
  the assignment of the flag have no counterpart.
\<close>

datatype signal = SIGHUP

record 'lit app =
  stored :: "'lit json"
  needsRestart :: bool
  reloads :: "(nat \<times> signal) list"

text \<open>
  The queries \<^verbatim>\<open>app.queries.GetSettings\<close> and \<^verbatim>\<open>app.queries.UpdateSettings\<close> and the
  construction of \<^verbatim>\<open>App\<close> are not in \<^verbatim>\<open>settings.go\<close>; the three definitions below stand for
  them. Whether the backend fails is an input of the request: \<open>None\<close>, or \<open>Some m\<close> with
  \<open>m\<close> the text that \<^verbatim>\<open>pqErrMsg\<close> makes of the error.
\<close>

text \<open>Modelled from the spec: \<^verbatim>\<open>app.queries.GetSettings.Get\<close> is missing. After the
  contract of \<open>ConfigurationStore.get\<close>, it returns the current encoded document, or
  fails.\<close>

definition GetSettings_Get :: "string option \<Rightarrow> 'lit app \<Rightarrow> string + 'lit json" where
  "GetSettings_Get failure app = (case failure of Some m \<Rightarrow> Inl m | None \<Rightarrow> Inr (stored app))"

text \<open>Modelled from the spec: \<^verbatim>\<open>app.queries.UpdateSettings.Exec\<close> is missing. After the
  contract of \<open>ConfigurationStore.put\<close>, it replaces the stored document as a whole, or
  fails and leaves the prior stored document as it was.\<close>

definition UpdateSettings_Exec :: "string option \<Rightarrow> 'lit json \<Rightarrow> 'lit app \<Rightarrow> string + 'lit app" where
  "UpdateSettings_Exec failure b app =
     (case failure of Some m \<Rightarrow> Inl m | None \<Rightarrow> Inr (app\<lparr>stored := b\<rparr>))"

text \<open>Modelled from the spec: the construction of \<^verbatim>\<open>App\<close> is missing. After the data model
  of \<open>RestartState\<close>, the flag is false at process start; no reload task has been
  launched then.\<close>

definition initial_app :: "'lit json \<Rightarrow> 'lit app" where
  "initial_app doc = \<lparr>stored = doc, needsRestart = False, reloads = []\<rparr>"

text \<open>
  \<^verbatim>\<open>c.Bind(&s)\<close> on a fresh \<^verbatim>\<open>settings\<close>: the binder of echo decodes a JSON body with
  \<^verbatim>\<open>encoding/json\<close>. \<open>NoJSON\<close> is a request that the binder refuses before any decoding
  (no body, another media type, a body that is not JSON text).
\<close>

datatype 'lit body = NoJSON | JSONBody "'lit json"

datatype bind_error = BindRefused | BindDecode json_error

definition Bind :: "('lit, 'f) strconv \<Rightarrow> 'lit body \<Rightarrow> bind_error + 'f settings" where
  "Bind L body =
     (case body of
        NoJSON \<Rightarrow> Inl BindRefused
      | JSONBody j \<Rightarrow> (case json_Unmarshal L j zero_settings of
                        Inl e \<Rightarrow> Inl (BindDecode e)
                      | Inr s \<Rightarrow> Inr s))"

text \<open>
  The responses. \<open>JSON code d\<close> is \<^verbatim>\<open>c.JSON(code, okResp{d})\<close>; \<open>HTTPError code m\<close> is
  \<^verbatim>\<open>echo.NewHTTPError(code, m)\<close>, its message either a fixed text or a format with the one
  value it is applied to; \<open>Err e\<close> is the error of \<^verbatim>\<open>c.Bind\<close>, returned as it is.
\<close>

datatype errarg = ErrJSON json_error | ErrText string

datatype message = Text string | Sprintf string errarg

datatype 'f data = DataSettings "'f settings" | DataNeedsRestart bool | DataBool bool

datatype 'f response = JSON nat "'f data" | HTTPError nat message | Err bind_error

definition StatusOK :: nat where "StatusOK = 200"
definition StatusBadRequest :: nat where "StatusBadRequest = 400"
definition StatusInternalServerError :: nat where "StatusInternalServerError = 500"

section \<open>handleGetSettings\<close>

text \<open>The loop \<^verbatim>\<open>for i := 0; i < len(s.SMTP); i++ { s.SMTP[i].Password = "" }\<close>, from \<open>i\<close> on.\<close>

function clear_passwords :: "nat \<Rightarrow> smtp list \<Rightarrow> smtp list" where
  "clear_passwords i bs =
     (if i < length bs then clear_passwords (i + 1) (bs[i := (bs ! i)\<lparr>Password := []\<rparr>])
      else bs)"
  by pat_completeness auto
termination
  by (relation "measure (\<lambda>(i, bs). length bs - i)") auto

declare clear_passwords.simps [simp del]

definition scrub :: "'f settings \<Rightarrow> 'f settings" where
  "scrub s =
     s\<lparr>SMTP := (case SMTP s of None \<Rightarrow> None | Some bs \<Rightarrow> Some (clear_passwords 0 bs)),
       UploadS3AwsSecretAccessKey := []\<rparr>"

definition handleGetSettings ::
  "('lit, 'f) strconv \<Rightarrow> string option \<Rightarrow> 'lit app \<Rightarrow> 'f response \<times> 'lit app"
where
  "handleGetSettings L failure app =
     (case GetSettings_Get failure app of
        Inl m \<Rightarrow>
          (HTTPError StatusInternalServerError
             (Sprintf ''Error fetching settings: %s'' (ErrText m)), app)
      | Inr out \<Rightarrow>
          (case json_Unmarshal L out zero_settings of
             Inl e \<Rightarrow>
               (HTTPError StatusInternalServerError
                  (Sprintf ''Error parsing settings: %v'' (ErrJSON e)), app)
           | Inr s \<Rightarrow> (JSON StatusOK (DataSettings (scrub s)), app)))"

section \<open>handleUpdateSettings\<close>

text \<open>The loop over \<^verbatim>\<open>s.SMTP\<close> that looks for an enabled block and stops at the first.\<close>

fun has_enabled :: "smtp list \<Rightarrow> bool" where
  "has_enabled [] = False"
| "has_enabled (b # bs) = (if Enabled b then True else has_enabled bs)"

text \<open>
  The handler returns its response, the state it leaves, and the steps it went through,
  in the order of the source: \<^verbatim>\<open>c.Bind\<close> (line 99), \<^verbatim>\<open>json.Marshal\<close> (line 103), the
  check for an enabled SMTP block (lines 110 to 117), \<^verbatim>\<open>UpdateSettings.Exec\<close> (line 123),
  \<^verbatim>\<open>HasRunningCampaigns\<close> (line 130), the assignment of \<^verbatim>\<open>needsRestart\<close> (line 132) and
  the \<^verbatim>\<open>go\<close> statement (line 141). The inputs of a request besides its body are whether
  the database fails and what \<^verbatim>\<open>app.manager.HasRunningCampaigns()\<close> answers.
\<close>

datatype step =
    StepBind | StepMarshal | StepCheckSMTP | StepExec | StepHasRunningCampaigns
  | StepSetNeedsRestart | StepGoReload

definition handleUpdateSettings ::
  "('lit, 'f) strconv \<Rightarrow> 'lit body \<Rightarrow> string option \<Rightarrow> bool \<Rightarrow> 'lit app
     \<Rightarrow> 'f response \<times> 'lit app \<times> step list"
where
  "handleUpdateSettings L body failure running app =
     (case Bind L body of
        Inl e \<Rightarrow> (Err e, app, [StepBind])
      | Inr s \<Rightarrow>
          (case json_Marshal L s of
             Inl e \<Rightarrow>
               (HTTPError StatusInternalServerError
                  (Sprintf ''Error encoding settings: %v'' (ErrJSON e)),
                app, [StepBind, StepMarshal])
           | Inr b \<Rightarrow>
               if \<not> has_enabled (slice_elems (SMTP s)) then
                 (HTTPError StatusBadRequest (Text ''At least one SMTP block should be enabled''),
                  app, [StepBind, StepMarshal, StepCheckSMTP])
               else
                 (case UpdateSettings_Exec failure b app of
                    Inl m \<Rightarrow>
                      (HTTPError StatusInternalServerError
                         (Sprintf ''Error updating settings: %s'' (ErrText m)),
                       app, [StepBind, StepMarshal, StepCheckSMTP, StepExec])
                  | Inr app' \<Rightarrow>
                      if running then
                        (JSON StatusOK (DataNeedsRestart True),
                         app'\<lparr>needsRestart := True\<rparr>,
                         [StepBind, StepMarshal, StepCheckSMTP, StepExec,
                          StepHasRunningCampaigns, StepSetNeedsRestart])
                      else
                        (JSON StatusOK (DataBool True),
                         app'\<lparr>reloads := reloads app' @ [(500, SIGHUP)]\<rparr>,
                         [StepBind, StepMarshal, StepCheckSMTP, StepExec,
                          StepHasRunningCampaigns, StepGoReload]))))"

text \<open>Sequences of requests, for the claims about the life of the flag.\<close>

datatype 'lit request =
    GetRequest "string option"
  | UpdateRequest "'lit body" "string option" bool

fun serve :: "('lit, 'f) strconv \<Rightarrow> 'lit request \<Rightarrow> 'lit app \<Rightarrow> 'lit app" where
  "serve L (GetRequest failure) app = snd (handleGetSettings L failure app)"
| "serve L (UpdateRequest body failure running) app =
     fst (snd (handleUpdateSettings L body failure running app))"

fun serve_all :: "('lit, 'f) strconv \<Rightarrow> 'lit request list \<Rightarrow> 'lit app \<Rightarrow> 'lit app" where
  "serve_all L [] app = app"
| "serve_all L (r # rs) app = serve_all L rs (serve L r app)"


section \<open>Documents that come out of the decoder\<close>

text \<open>
  Not every value of the model's types is a value the decoder can produce: a map is
  kept with its keys in ascending order, and a \<^verbatim>\<open>float64\<close> under \<^verbatim>\<open>Messengers\<close> is one that
  can be written and read back. \<open>wf_settings\<close> collects this; the decoder establishes it
  (lemma \<open>json_Unmarshal_wf\<close>).
\<close>

fun wf_iface :: "('lit, 'f) strconv \<Rightarrow> 'f iface \<Rightarrow> bool"
  and wf_iface_list :: "('lit, 'f) strconv \<Rightarrow> 'f iface list \<Rightarrow> bool"
  and wf_iface_kvs :: "('lit, 'f) strconv \<Rightarrow> (string \<times> 'f iface) list \<Rightarrow> bool"
where
  "wf_iface L INil = True"
| "wf_iface L (IBool b) = True"
| "wf_iface L (IFloat f) =
     (case FormatFloat L f of None \<Rightarrow> False | Some l \<Rightarrow> ParseFloat L l = Some f)"
| "wf_iface L (IString s) = True"
| "wf_iface L (ISlice xs) = wf_iface_list L xs"
| "wf_iface L (IMap m) = (sorted_keys m \<and> wf_iface_kvs L m)"
| "wf_iface_list L [] = True"
| "wf_iface_list L (x # xs) = (wf_iface L x \<and> wf_iface_list L xs)"
| "wf_iface_kvs L [] = True"
| "wf_iface_kvs L ((k, x) # m) = (wf_iface L x \<and> wf_iface_kvs L m)"

definition wf_headers :: "(string \<times> string) list option \<Rightarrow> bool" where
  "wf_headers h = (case h of None \<Rightarrow> True | Some m \<Rightarrow> sorted_keys m)"

definition wf_smtp :: "smtp \<Rightarrow> bool" where
  "wf_smtp b = list_all wf_headers (slice_elems (EmailHeaders b))"

definition wf_settings :: "('lit, 'f) strconv \<Rightarrow> 'f settings \<Rightarrow> bool" where
  "wf_settings L s =
     (wf_iface_list L (slice_elems (Messengers s)) \<and> list_all wf_smtp (slice_elems (SMTP s)))"

text \<open>The member of a JSON object under a key, and a field that no key of an object
  matches.\<close>

definition member :: "string \<Rightarrow> 'lit json \<Rightarrow> 'lit json option" where
  "member k j = (case j of JObj kvs \<Rightarrow> map_of kvs k | _ \<Rightarrow> None)"

definition omitted :: "('fld \<Rightarrow> string) \<Rightarrow> 'fld list \<Rightarrow> 'fld \<Rightarrow> (string \<times> 'lit json) list \<Rightarrow> bool" where
  "omitted tag flds f kvs = (filter (\<lambda>(k, v). find_field tag flds k = Some f) kvs = [])"

section \<open>Instances for evaluation\<close>

text \<open>
  Two small instances of the number conversions, on which the model can be run: a
  number literal is an integer, \<open>ParseInt\<close> takes the literals in the range of \<^verbatim>\<open>int\<close>, and
  a \<^verbatim>\<open>float64\<close> is an integer as well. The second instance refuses to write any
  \<^verbatim>\<open>float64\<close>, as \<^verbatim>\<open>json.Marshal\<close> does for NaN; it reaches the branch of the handler that
  reports an encoding error.
\<close>

definition strconv_int :: "(int, int) strconv" where
  "strconv_int =
     \<lparr>ParseInt = (\<lambda>l. if - (2 ^ 63) \<le> l \<and> l < 2 ^ 63 then Some (word_of_int l) else None),
      FormatInt = sint, ParseFloat = Some, FormatFloat = Some\<rparr>"

definition strconv_refusing :: "(int, int) strconv" where
  "strconv_refusing =
     \<lparr>ParseInt = (\<lambda>l. if - (2 ^ 63) \<le> l \<and> l < 2 ^ 63 then Some (word_of_int l) else None),
      FormatInt = sint, ParseFloat = Some, FormatFloat = (\<lambda>f. None)\<rparr>"

text \<open>The requests of the scenarios A and B of the spec, a request with a messenger, a
  key in upper case, a key outside the schema and a map with its keys out of order, and
  a stored document that holds two secrets.\<close>

definition scenario_A :: "int json" where
  "scenario_A = JObj [(''smtp'', JArr [JObj [(''enabled'', JBool False), (''host'', JStr ''a'')]])]"

definition scenario_B :: "int json" where
  "scenario_B =
     JObj [(''smtp'', JArr [JObj [(''enabled'', JBool True), (''host'', JStr ''mx.example.com''),
                                   (''password'', JStr ''secret'')]])]"

definition sample_request :: "int json" where
  "sample_request =
     JObj [(''SMTP'', JArr [JObj [(''enabled'', JBool True), (''Host'', JStr ''mx''),
                                   (''port'', JNum 25),
                                   (''email_headers'',
                                      JArr [JObj [(''X-B'', JStr ''2''), (''X-A'', JStr ''1'')]])]]),
           (''unknown'', JNum 3),
           (''messengers'', JArr [JObj [(''b'', JNum 1), (''a'', JNull)]]),
           (''app.batch_size'', JNum 1000)]"

definition sample_settings :: "int settings" where
  "sample_settings =
     zero_settings
       \<lparr>AppBatchSize := 1000,
        Messengers := Some [IMap [(''a'', INil), (''b'', IFloat 1)]],
        SMTP := Some [zero_smtp\<lparr>Enabled := True, Host := ''mx'', Port := 25,
                        EmailHeaders := Some [Some [(''X-A'', ''1''), (''X-B'', ''2'')]]\<rparr>]\<rparr>"

definition stored_with_secrets :: "int json" where
  "stored_with_secrets =
     JObj [(''app.root_url'', JStr ''http://localhost''),
           (''smtp'', JArr [JObj [(''enabled'', JBool True), (''host'', JStr ''mx''),
                                   (''password'', JStr ''secret'')],
                            JObj [(''host'', JStr ''mx2''), (''password'', JStr ''other'')]]),
           (''upload.s3.aws_secret_access_key'', JStr ''key'')]"


section \<open>Lemmas: matching keys to fields\<close>

lemma upper_ascii_Char:
  "upper_ascii (Char b0 b1 b2 b3 b4 b5 b6 b7) =
     Char b0 b1 b2 b3 b4
       (b5 \<and> \<not> (\<not> b7 \<and> b6 \<and> (b0 \<or> b1 \<or> b2 \<or> b3 \<or> b4) \<and> \<not> (b4 \<and> b3 \<and> (b2 \<or> (b1 \<and> b0)))))
       b6 b7"
  by (cases b0; cases b1; cases b2; cases b3; cases b4; cases b5; cases b6; cases b7;
      simp add: upper_ascii_def char_of_eq_iff)

lemma find_field_map_of:
  "find_field tag flds k = map_of (map (\<lambda>f. (foldName (tag f), f)) flds) (foldName k)"
  unfolding find_field_def by (induction flds) auto

lemma folded_settings_tags:
  "map (\<lambda>f. (foldName (settings_tag f), f)) settings_fields =
     [(''APP.ROOT_URL'', F_AppRootURL), (''APP.LOGO_URL'', F_AppLogoURL),
      (''APP.FAVICON_URL'', F_AppFaviconURL), (''APP.FROM_EMAIL'', F_AppFromEmail),
      (''APP.NOTIFY_EMAILS'', F_AppNotifyEmails), (''APP.BATCH_SIZE'', F_AppBatchSize),
      (''APP.CONCURRENCY'', F_AppConcurrency), (''APP.MAX_SEND_ERRORS'', F_AppMaxSendErrors),
      (''APP.MESSAGE_RATE'', F_AppMessageRate), (''MESSENGERS'', F_Messengers),
      (''PRIVACY.ALLOW_BLACKLIST'', F_PrivacyAllowBlacklist),
      (''PRIVACY.ALLOW_EXPORT'', F_PrivacyAllowExport),
      (''PRIVACY.ALLOW_WIPE'', F_PrivacyAllowWipe),
      (''PRIVACY.EXPORTABLE'', F_PrivacyExportable), (''SMTP'', F_SMTP),
      (''UPLOAD.PROVIDER'', F_UploadProvider),
      (''UPLOAD.FILESYSTEM.UPLOAD_PATH'', F_UploadFilesystemUploadPath),
      (''UPLOAD.FILESYSTEM.UPLOAD_URI'', F_UploadFilesystemUploadURI),
      (''UPLOAD.S3.AWS_ACCESS_KEY_ID'', F_UploadS3AwsAccessKeyID),
      (''UPLOAD.S3.AWS_DEFAULT_REGION'', F_UploadS3AwsDefaultRegion),
      (''UPLOAD.S3.AWS_SECRET_ACCESS_KEY'', F_UploadS3AwsSecretAccessKey),
      (''UPLOAD.S3.BUCKET'', F_UploadS3Bucket),
      (''UPLOAD.S3.BUCKET_DOMAIN'', F_UploadS3BucketDomain),
      (''UPLOAD.S3.BUCKET_PATH'', F_UploadS3BucketPath),
      (''UPLOAD.S3.BUCKET_TYPE'', F_UploadS3BucketType),
      (''UPLOAD.S3.EXPIRY'', F_UploadS3Expiry)]"
  by (simp add: settings_fields_def upper_ascii_Char)

lemma folded_smtp_tags:
  "map (\<lambda>f. (foldName (smtp_tag f), f)) smtp_fields =
     [(''ENABLED'', F_Enabled), (''HOST'', F_Host), (''HELLO_HOSTNAME'', F_HelloHostname),
      (''PORT'', F_Port), (''AUTH_PROTOCOL'', F_AuthProtocol), (''USERNAME'', F_Username),
      (''PASSWORD'', F_Password), (''EMAIL_HEADERS'', F_EmailHeaders),
      (''MAX_CONNS'', F_MaxConns), (''MAX_MSG_RETRIES'', F_MaxMsgRetries),
      (''IDLE_TIMEOUT'', F_IdleTimeout), (''WAIT_TIMEOUT'', F_WaitTimeout),
      (''TLS_ENABLED'', F_TLSEnabled), (''TLS_SKIP_VERIFY'', F_TLSSkipVerify)]"
  by (simp add: smtp_fields_def upper_ascii_Char)

lemmas find_settings_field = find_field_map_of [of settings_tag settings_fields, unfolded folded_settings_tags]
lemmas find_smtp_field = find_field_map_of [of smtp_tag smtp_fields, unfolded folded_smtp_tags]

lemma find_settings_tag: "find_field settings_tag settings_fields (settings_tag f) = Some f"
  by (cases f; simp add: find_settings_field upper_ascii_Char)

lemma find_smtp_tag: "find_field smtp_tag smtp_fields (smtp_tag f) = Some f"
  by (cases f; simp add: find_smtp_field upper_ascii_Char)

section \<open>Lemmas: maps and slices\<close>

lemma map_put_append:
  "\<forall>k' \<in> fst ` set m. k' < k \<Longrightarrow> map_put k v m = m @ [(k, v)]"
  by (induction m) (auto simp: order.asym)

lemma sorted_keys_snoc:
  "sorted_keys (m @ [(k, v)]) \<longleftrightarrow> sorted_keys m \<and> (\<forall>k' \<in> fst ` set m. k' < k)"
  by (auto simp: sorted_keys_def sorted_wrt_append)

lemma set_map_put: "fst ` set (map_put k v m) = insert k (fst ` set m)"
proof (induction m)
  case Nil
  then show ?case by simp
next
  case (Cons a m)
  then show ?case by (cases a) (simp add: insert_commute)
qed

lemma sorted_keys_map_put: "sorted_keys m \<Longrightarrow> sorted_keys (map_put k v m)"
proof (induction m)
  case Nil
  then show ?case by (simp add: sorted_keys_def)
next
  case (Cons a m)
  obtain k' v' where a: "a = (k', v')" by (cases a)
  from Cons.prems have m: "sorted_keys m" and lt: "\<forall>x \<in> fst ` set m. k' < x"
    by (auto simp: sorted_keys_def a)
  show ?case
  proof (cases "k = k'")
    case True
    with Cons.prems show ?thesis by (simp add: a sorted_keys_def)
  next
    case False
    show ?thesis
    proof (cases "k < k'")
      case True
      with Cons.prems lt show ?thesis
        by (auto simp: a sorted_keys_def)
    next
      case nlt: False
      with False have "k' < k" by auto
      with lt have "\<forall>x \<in> fst ` set (map_put k v m). k' < x"
        by (simp add: set_map_put)
      with Cons.IH [OF m] False nlt show ?thesis
        by (auto simp: a sorted_keys_def)
    qed
  qed
qed

lemma decode_map_kvs_sorted:
  "decode_map_kvs kvs m = Inr m' \<Longrightarrow> sorted_keys m \<Longrightarrow> sorted_keys m'"
  by (induction kvs m rule: decode_map_kvs.induct)
     (auto simp: sorted_keys_map_put split: sum.splits)

lemma decode_map_wf: "decode_map j cur = Inr h \<Longrightarrow> wf_headers cur \<Longrightarrow> wf_headers h"
  by (auto simp: decode_map_def wf_headers_def slice_elems_def sorted_keys_def
      split: json.splits sum.splits option.splits dest: decode_map_kvs_sorted[unfolded sorted_keys_def])

lemma decode_map_kvs_roundtrip:
  "sorted_keys (m1 @ m2) \<Longrightarrow>
   decode_map_kvs (map (\<lambda>(k, v). (k, JStr v)) m2) m1 = Inr (m1 @ m2)"
proof (induction m2 arbitrary: m1)
  case Nil
  then show ?case by simp
next
  case (Cons kv m2)
  obtain k v where kv: "kv = (k, v)" by (cases kv)
  from Cons.prems have s: "sorted_keys ((m1 @ [(k, v)]) @ m2)" by (simp add: kv)
  then have "sorted_keys (m1 @ [(k, v)])"
    by (simp add: sorted_keys_def sorted_wrt_append)
  then have "map_put k v m1 = m1 @ [(k, v)]"
    by (simp add: sorted_keys_snoc map_put_append)
  with Cons.IH [OF s] show ?case
    by (simp add: kv decode_string_def)
qed

lemma decode_map_roundtrip:
  "wf_headers h \<Longrightarrow> decode_map (encode_map h) None = Inr h"
  by (cases h)
     (simp_all add: decode_map_def encode_map_def wf_headers_def slice_elems_def
        decode_map_kvs_roundtrip [of "[]", simplified])

lemma decode_elems_roundtrip:
  "(\<And>x. x \<in> set xs \<Longrightarrow> dec (enc x) z = Inr x) \<Longrightarrow>
   decode_elems dec z (map enc xs) [] = Inr xs"
  by (induction xs) simp_all

lemma decode_slice_roundtrip:
  "(\<And>x. x \<in> set (slice_elems s) \<Longrightarrow> dec (enc x) z = Inr x) \<Longrightarrow>
   decode_slice dec z (encode_slice enc s) None = Inr s"
  by (cases s) (simp_all add: decode_slice_def encode_slice_def slice_elems_def decode_elems_roundtrip)

lemma decode_elems_pres:
  assumes "decode_elems dec z js cur = Inr xs"
    and "P z" and "list_all P cur"
    and "\<And>j c x. P c \<Longrightarrow> dec j c = Inr x \<Longrightarrow> P x"
  shows "list_all P xs"
  using assms(1,3)
proof (induction js arbitrary: cur xs)
  case Nil
  then show ?case by simp
next
  case (Cons j js)
  from Cons.prems(2) have c: "P (case cur of [] \<Rightarrow> z | c # _ \<Rightarrow> c)" and t: "list_all P (tl cur)"
    using assms(2) by (cases cur; simp)+
  from Cons.prems(1) obtain x xs' where
    x: "dec j (case cur of [] \<Rightarrow> z | c # _ \<Rightarrow> c) = Inr x"
    and xs': "decode_elems dec z js (tl cur) = Inr xs'" and eq: "xs = x # xs'"
    by (auto split: sum.splits)
  from assms(4) [OF c x] Cons.IH [OF xs' t] show ?case by (simp add: eq)
qed

lemma decode_slice_pres:
  assumes "decode_slice dec z j cur = Inr s"
    and "P z" and "list_all P (slice_elems cur)"
    and "\<And>j c x. P c \<Longrightarrow> dec j c = Inr x \<Longrightarrow> P x"
  shows "list_all P (slice_elems s)"
  using assms(1) decode_elems_pres [of dec z _ "slice_elems cur" _ P, OF _ assms(2,3,4)]
  by (auto simp: decode_slice_def slice_elems_def split: json.splits sum.splits)

section \<open>Lemmas: values under \<^verbatim>\<open>interface{}\<close>\<close>

lemma roundtrips_float:
  assumes "strconv_roundtrips L" and "ParseFloat L l = Some f"
  shows "wf_iface L (IFloat f)"
proof -
  from assms(1) have "case ParseFloat L l of
              None \<Rightarrow> True
            | Some f \<Rightarrow> (case FormatFloat L f of
                           None \<Rightarrow> False
                         | Some l' \<Rightarrow> ParseFloat L l' = Some f)"
    unfolding strconv_roundtrips_def by blast
  with assms(2) show ?thesis by simp
qed

lemma wf_iface_kvs_map_put:
  "wf_iface L x \<Longrightarrow> wf_iface_kvs L m \<Longrightarrow> wf_iface_kvs L (map_put k x m)"
  by (induction m) auto


lemma decode_iface_wf:
  assumes "strconv_roundtrips L"
  shows "decode_iface L j = Inr v \<Longrightarrow> wf_iface L v"
    and "decode_iface_list L js = Inr vs \<Longrightarrow> wf_iface_list L vs"
    and "decode_iface_kvs L kvs m = Inr m' \<Longrightarrow> sorted_keys m \<Longrightarrow> wf_iface_kvs L m
           \<Longrightarrow> sorted_keys m' \<and> wf_iface_kvs L m'"
  using assms
proof (induction L j and L js and L kvs m arbitrary: v and vs and m'
    rule: decode_iface_decode_iface_list_decode_iface_kvs.induct)
  case (1 L)
  then show ?case by auto
next
  case (2 L b)
  then show ?case by auto
next
  case (3 L l)
  then show ?case
    using roundtrips_float [of L l] by (cases "ParseFloat L l") auto
next
  case (4 L s)
  then show ?case by auto
next
  case (5 L js)
  then show ?case by (cases "decode_iface_list L js") auto
next
  case (6 L kvs)
  have "sorted_keys ([] :: (string \<times> 'b iface) list)" by (simp add: sorted_keys_def)
  with 6 show ?case by (cases "decode_iface_kvs L kvs []") auto
next
  case (7 L)
  then show ?case by auto
next
  case (8 L j js)
  then show ?case
    by (cases "decode_iface L j"; cases "decode_iface_list L js") auto
next
  case (9 L m)
  then show ?case by auto
next
  case (10 L k v kvs m)
  from "10.prems"(1) obtain x where x: "decode_iface L v = Inr x"
    and r: "decode_iface_kvs L kvs (map_put k x m) = Inr m'"
    by (cases "decode_iface L v") auto
  from "10.IH"(1) [OF x "10.prems"(4)] have wx: "wf_iface L x" .
  show ?case
    by (rule "10.IH"(2) [OF x r _ _ "10.prems"(4)])
       (simp_all add: sorted_keys_map_put wf_iface_kvs_map_put wx "10.prems")
qed


lemma encode_iface_roundtrip:
  "wf_iface L v \<Longrightarrow> \<exists>j. encode_iface L v = Inr j \<and> decode_iface L j = Inr v"
  "wf_iface_list L vs \<Longrightarrow>
     \<exists>js. encode_iface_list L vs = Inr js \<and> decode_iface_list L js = Inr vs"
  "wf_iface_kvs L m2 \<Longrightarrow>
     \<exists>kvs. encode_iface_kvs L m2 = Inr kvs \<and>
       (\<forall>m1. sorted_keys (m1 @ m2) \<longrightarrow> decode_iface_kvs L kvs m1 = Inr (m1 @ m2))"
proof (induction L v and L vs and L m2 rule: wf_iface_wf_iface_list_wf_iface_kvs.induct)
  case (1 L)
  then show ?case by simp
next
  case (2 L b)
  then show ?case by simp
next
  case (3 L f)
  then show ?case by (cases "FormatFloat L f") simp_all
next
  case (4 L s)
  then show ?case by simp
next
  case (5 L xs)
  then obtain js where "encode_iface_list L xs = Inr js" "decode_iface_list L js = Inr xs"
    by auto
  then show ?case by simp
next
  case (6 L m)
  then obtain kvs where e: "encode_iface_kvs L m = Inr kvs"
    and d: "\<And>m1. sorted_keys (m1 @ m) \<Longrightarrow> decode_iface_kvs L kvs m1 = Inr (m1 @ m)"
    by auto
  from 6 have "sorted_keys ([] @ m)" by simp
  from d [OF this] have "decode_iface_kvs L kvs [] = Inr m" by simp
  with e show ?case by simp
next
  case (7 L)
  then show ?case by simp
next
  case (8 L x xs)
  then obtain j js where "encode_iface L x = Inr j" "decode_iface L j = Inr x"
    "encode_iface_list L xs = Inr js" "decode_iface_list L js = Inr xs"
    by auto
  then show ?case by simp
next
  case (9 L)
  then show ?case by simp
next
  case (10 L k x m)
  then obtain j kvs where j: "encode_iface L x = Inr j" "decode_iface L j = Inr x"
    and e: "encode_iface_kvs L m = Inr kvs"
    and d: "\<And>m1. sorted_keys (m1 @ m) \<Longrightarrow> decode_iface_kvs L kvs m1 = Inr (m1 @ m)"
    by auto
  have "decode_iface_kvs L ((k, j) # kvs) m1 = Inr (m1 @ (k, x) # m)"
    if s: "sorted_keys (m1 @ (k, x) # m)" for m1
  proof -
    from s have s': "sorted_keys ((m1 @ [(k, x)]) @ m)" by simp
    then have "sorted_keys (m1 @ [(k, x)])"
      by (simp add: sorted_keys_def sorted_wrt_append)
    then have "map_put k x m1 = m1 @ [(k, x)]"
      by (simp add: sorted_keys_snoc map_put_append)
    with d [OF s'] j show ?thesis by simp
  qed
  with j e show ?case by simp
qed

lemma wf_iface_list_all: "wf_iface_list L vs = list_all (wf_iface L) vs"
  by (induction vs) auto

section \<open>Lemmas: a written document reads back as itself\<close>

lemma roundtrips_int:
  "strconv_roundtrips L \<Longrightarrow> decode_int L (encode_int L n) cur = Inr n"
  by (simp add: strconv_roundtrips_def decode_int_def encode_int_def)

lemma encode_smtp_members:
  "encode_smtp L b =
     JObj [(smtp_tag F_Enabled, JBool (Enabled b)), (smtp_tag F_Host, JStr (Host b)),
           (smtp_tag F_HelloHostname, JStr (HelloHostname b)),
           (smtp_tag F_Port, encode_int L (Port b)),
           (smtp_tag F_AuthProtocol, JStr (AuthProtocol b)),
           (smtp_tag F_Username, JStr (Username b)), (smtp_tag F_Password, JStr (Password b)),
           (smtp_tag F_EmailHeaders, encode_slice encode_map (EmailHeaders b)),
           (smtp_tag F_MaxConns, encode_int L (MaxConns b)),
           (smtp_tag F_MaxMsgRetries, encode_int L (MaxMsgRetries b)),
           (smtp_tag F_IdleTimeout, JStr (IdleTimeout b)),
           (smtp_tag F_WaitTimeout, JStr (WaitTimeout b)),
           (smtp_tag F_TLSEnabled, JBool (TLSEnabled b)),
           (smtp_tag F_TLSSkipVerify, JBool (TLSSkipVerify b))]"
  by (simp add: encode_smtp_def smtp_fields_def del: smtp_tag.simps)

lemma headers_roundtrip:
  "list_all wf_headers (slice_elems hs) \<Longrightarrow>
   decode_slice decode_map None (encode_slice encode_map hs) None = Inr hs"
  by (rule decode_slice_roundtrip) (simp add: list_all_iff decode_map_roundtrip)

lemma decode_smtp_roundtrip:
  assumes "strconv_roundtrips L" and "wf_smtp b"
  shows "decode_smtp L (encode_smtp L b) zero_smtp = Inr b"
  using assms
  by (cases b)
     (simp add: decode_smtp_def decode_struct_def encode_smtp_members find_smtp_tag
         assign_def decode_bool_def decode_string_def roundtrips_int zero_smtp_def
         wf_smtp_def headers_roundtrip
         del: smtp_tag.simps)


lemma decode_elems_iface:
  "decode_elems (decode_iface_into L) z js cur = decode_iface_list L js"
  by (induction js arbitrary: cur) (auto simp: decode_iface_into_def split: sum.splits)

lemma messengers_roundtrip:
  assumes "wf_iface_list L (slice_elems ms)"
  shows "\<exists>jm. (case ms of
                 None \<Rightarrow> Inr JNull
               | Some xs \<Rightarrow> (case encode_iface_list L xs of
                              Inl e \<Rightarrow> Inl e
                            | Inr js \<Rightarrow> Inr (JArr js))) = Inr jm \<and>
              decode_slice (decode_iface_into L) INil jm cur = Inr ms"
proof (cases ms)
  case None
  then show ?thesis by (simp add: decode_slice_def)
next
  case (Some xs)
  with assms have "wf_iface_list L xs" by (simp add: slice_elems_def)
  from encode_iface_roundtrip(2) [OF this] obtain js where
    "encode_iface_list L xs = Inr js" "decode_iface_list L js = Inr xs" by blast
  with Some show ?thesis by (simp add: decode_slice_def decode_elems_iface)
qed

lemma strings_roundtrip:
  "decode_slice decode_string [] (encode_slice JStr xs) None = Inr xs"
  by (rule decode_slice_roundtrip) (simp add: decode_string_def)

lemma smtp_slice_roundtrip:
  "strconv_roundtrips L \<Longrightarrow> list_all wf_smtp (slice_elems bs) \<Longrightarrow>
   decode_slice (decode_smtp L) zero_smtp (encode_slice (encode_smtp L) bs) None = Inr bs"
  by (rule decode_slice_roundtrip) (simp add: list_all_iff decode_smtp_roundtrip)

lemma json_Marshal_roundtrip:
  assumes L: "strconv_roundtrips L" and wf: "wf_settings L s"
  shows "\<exists>b. json_Marshal L s = Inr b \<and> json_Unmarshal L b zero_settings = Inr s"
proof -
  from wf have wm: "wf_iface_list L (slice_elems (Messengers s))"
    and ws: "list_all wf_smtp (slice_elems (SMTP s))"
    by (simp_all add: wf_settings_def)
  from messengers_roundtrip [OF wm, of None] obtain jm where
    jm: "encode_field L F_Messengers s = Inr jm"
    and dm: "decode_slice (decode_iface_into L) INil jm None = Inr (Messengers s)"
    by auto
  have m: "json_Marshal L s =
    Inr (JObj
     [(settings_tag F_AppRootURL, JStr (AppRootURL s)),
      (settings_tag F_AppLogoURL, JStr (AppLogoURL s)),
      (settings_tag F_AppFaviconURL, JStr (AppFaviconURL s)),
      (settings_tag F_AppFromEmail, JStr (AppFromEmail s)),
      (settings_tag F_AppNotifyEmails, encode_slice JStr (AppNotifyEmails s)),
      (settings_tag F_AppBatchSize, encode_int L (AppBatchSize s)),
      (settings_tag F_AppConcurrency, encode_int L (AppConcurrency s)),
      (settings_tag F_AppMaxSendErrors, encode_int L (AppMaxSendErrors s)),
      (settings_tag F_AppMessageRate, encode_int L (AppMessageRate s)),
      (settings_tag F_Messengers, jm),
      (settings_tag F_PrivacyAllowBlacklist, JBool (PrivacyAllowBlacklist s)),
      (settings_tag F_PrivacyAllowExport, JBool (PrivacyAllowExport s)),
      (settings_tag F_PrivacyAllowWipe, JBool (PrivacyAllowWipe s)),
      (settings_tag F_PrivacyExportable, encode_slice JStr (PrivacyExportable s)),
      (settings_tag F_SMTP, encode_slice (encode_smtp L) (SMTP s)),
      (settings_tag F_UploadProvider, JStr (UploadProvider s)),
      (settings_tag F_UploadFilesystemUploadPath, JStr (UploadFilesystemUploadPath s)),
      (settings_tag F_UploadFilesystemUploadURI, JStr (UploadFilesystemUploadURI s)),
      (settings_tag F_UploadS3AwsAccessKeyID, JStr (UploadS3AwsAccessKeyID s)),
      (settings_tag F_UploadS3AwsDefaultRegion, JStr (UploadS3AwsDefaultRegion s)),
      (settings_tag F_UploadS3AwsSecretAccessKey, JStr (UploadS3AwsSecretAccessKey s)),
      (settings_tag F_UploadS3Bucket, JStr (UploadS3Bucket s)),
      (settings_tag F_UploadS3BucketDomain, JStr (UploadS3BucketDomain s)),
      (settings_tag F_UploadS3BucketPath, JStr (UploadS3BucketPath s)),
      (settings_tag F_UploadS3BucketType, JStr (UploadS3BucketType s)),
      (settings_tag F_UploadS3Expiry, encode_int L (UploadS3Expiry s))])"
    using jm
    by (simp add: json_Marshal_def settings_fields_def
          del: settings_tag.simps encode_field.simps(10))
  have "json_Unmarshal L (JObj
     [(settings_tag F_AppRootURL, JStr (AppRootURL s)),
      (settings_tag F_AppLogoURL, JStr (AppLogoURL s)),
      (settings_tag F_AppFaviconURL, JStr (AppFaviconURL s)),
      (settings_tag F_AppFromEmail, JStr (AppFromEmail s)),
      (settings_tag F_AppNotifyEmails, encode_slice JStr (AppNotifyEmails s)),
      (settings_tag F_AppBatchSize, encode_int L (AppBatchSize s)),
      (settings_tag F_AppConcurrency, encode_int L (AppConcurrency s)),
      (settings_tag F_AppMaxSendErrors, encode_int L (AppMaxSendErrors s)),
      (settings_tag F_AppMessageRate, encode_int L (AppMessageRate s)),
      (settings_tag F_Messengers, jm),
      (settings_tag F_PrivacyAllowBlacklist, JBool (PrivacyAllowBlacklist s)),
      (settings_tag F_PrivacyAllowExport, JBool (PrivacyAllowExport s)),
      (settings_tag F_PrivacyAllowWipe, JBool (PrivacyAllowWipe s)),
      (settings_tag F_PrivacyExportable, encode_slice JStr (PrivacyExportable s)),
      (settings_tag F_SMTP, encode_slice (encode_smtp L) (SMTP s)),
      (settings_tag F_UploadProvider, JStr (UploadProvider s)),
      (settings_tag F_UploadFilesystemUploadPath, JStr (UploadFilesystemUploadPath s)),
      (settings_tag F_UploadFilesystemUploadURI, JStr (UploadFilesystemUploadURI s)),
      (settings_tag F_UploadS3AwsAccessKeyID, JStr (UploadS3AwsAccessKeyID s)),
      (settings_tag F_UploadS3AwsDefaultRegion, JStr (UploadS3AwsDefaultRegion s)),
      (settings_tag F_UploadS3AwsSecretAccessKey, JStr (UploadS3AwsSecretAccessKey s)),
      (settings_tag F_UploadS3Bucket, JStr (UploadS3Bucket s)),
      (settings_tag F_UploadS3BucketDomain, JStr (UploadS3BucketDomain s)),
      (settings_tag F_UploadS3BucketPath, JStr (UploadS3BucketPath s)),
      (settings_tag F_UploadS3BucketType, JStr (UploadS3BucketType s)),
      (settings_tag F_UploadS3Expiry, encode_int L (UploadS3Expiry s))]) zero_settings = Inr s"
    using dm smtp_slice_roundtrip [OF L ws]
    by (cases s)
       (simp add: json_Unmarshal_def decode_struct_def find_settings_tag assign_def
          decode_bool_def decode_string_def roundtrips_int [OF L] zero_settings_def
          strings_roundtrip
          del: settings_tag.simps)
  with m show ?thesis by simp
qed

section \<open>Lemmas: what the decoder produces is well formed\<close>

lemma decode_members_pres:
  assumes "decode_members fnd st kvs s = Inr s'" and "P s"
    and "\<And>f v s s'. P s \<Longrightarrow> st f v s = Inr s' \<Longrightarrow> P s'"
  shows "P s'"
  using assms(1,2)
proof (induction kvs arbitrary: s)
  case Nil
  then show ?case by simp
next
  case (Cons kv kvs)
  obtain k v where kv: "kv = (k, v)" by (cases kv)
  show ?case
  proof (cases "fnd k")
    case None
    with Cons kv show ?thesis by simp
  next
    case (Some f)
    with Cons.prems(1) kv obtain s1 where s1: "st f v s = Inr s1"
      and r: "decode_members fnd st kvs s1 = Inr s'"
      by (cases "st f v s") auto
    from assms(3) [OF Cons.prems(2) s1] have "P s1" .
    from Cons.IH [OF r this] show ?thesis .
  qed
qed

lemma decode_struct_pres:
  assumes "decode_struct fnd st j s = Inr s'" and "P s"
    and "\<And>f v s s'. P s \<Longrightarrow> st f v s = Inr s' \<Longrightarrow> P s'"
  shows "P s'"
proof (cases j)
  case JNull
  with assms(1,2) show ?thesis by (simp add: decode_struct_def)
next
  case (JObj kvs)
  with assms(1) have "decode_members fnd st kvs s = Inr s'" by (simp add: decode_struct_def)
  from decode_members_pres [of fnd st kvs s s' P, OF this assms(2,3)] show ?thesis .
qed (use assms(1) in \<open>simp_all add: decode_struct_def\<close>)

lemma assign_Inr: "assign upd r = Inr y \<longleftrightarrow> (\<exists>x. r = Inr x \<and> y = upd x)"
  by (cases r) (auto simp: assign_def)

lemma wf_headers_None: "wf_headers None"
  by (simp add: wf_headers_def)

lemma set_smtp_field_wf:
  assumes "wf_smtp b" and "set_smtp_field L f j b = Inr b'"
  shows "wf_smtp b'"
proof (cases f)
  case F_EmailHeaders
  with assms(2) obtain hs where
    hs: "decode_slice decode_map None j (EmailHeaders b) = Inr hs" and b': "b' = b\<lparr>EmailHeaders := hs\<rparr>"
    by (auto simp: assign_Inr)
  from assms(1) have "list_all wf_headers (slice_elems (EmailHeaders b))"
    by (simp add: wf_smtp_def)
  from decode_slice_pres [of decode_map None j "EmailHeaders b" hs wf_headers,
      OF hs wf_headers_None this] decode_map_wf
  have "list_all wf_headers (slice_elems hs)" by blast
  with b' show ?thesis by (simp add: wf_smtp_def)
qed (use assms in \<open>auto simp: assign_Inr wf_smtp_def\<close>)

lemma wf_zero_smtp: "wf_smtp zero_smtp"
  by (simp add: wf_smtp_def zero_smtp_def slice_elems_def)

lemma decode_smtp_wf: "wf_smtp b \<Longrightarrow> decode_smtp L j b = Inr b' \<Longrightarrow> wf_smtp b'"
  unfolding decode_smtp_def
  by (erule decode_struct_pres [rotated]) (auto intro: set_smtp_field_wf)

lemma set_field_wf:
  assumes L: "strconv_roundtrips L" and "wf_settings L s" and "set_field L f j s = Inr s'"
  shows "wf_settings L s'"
proof (cases f)
  case F_Messengers
  with assms(3) obtain ms where
    ms: "decode_slice (decode_iface_into L) INil j (Messengers s) = Inr ms"
    and s': "s' = s\<lparr>Messengers := ms\<rparr>"
    by (auto simp: assign_Inr)
  from ms have "wf_iface_list L (slice_elems ms)"
    by (auto simp: decode_slice_def decode_elems_iface slice_elems_def
        split: json.splits sum.splits dest: decode_iface_wf(2) [OF L])
  with assms(2) s' show ?thesis by (simp add: wf_settings_def)
next
  case F_SMTP
  with assms(3) obtain bs where
    bs: "decode_slice (decode_smtp L) zero_smtp j (SMTP s) = Inr bs"
    and s': "s' = s\<lparr>SMTP := bs\<rparr>"
    by (auto simp: assign_Inr)
  from assms(2) have "list_all wf_smtp (slice_elems (SMTP s))"
    by (simp add: wf_settings_def)
  from decode_slice_pres [of "decode_smtp L" zero_smtp j "SMTP s" bs wf_smtp,
      OF bs wf_zero_smtp this] decode_smtp_wf
  have "list_all wf_smtp (slice_elems bs)" by blast
  with assms(2) s' show ?thesis by (simp add: wf_settings_def)
qed (use assms(2,3) in \<open>auto simp: assign_Inr wf_settings_def\<close>)

lemma wf_zero_settings: "wf_settings L zero_settings"
  by (simp add: wf_settings_def zero_settings_def slice_elems_def)

lemma json_Unmarshal_wf:
  assumes "strconv_roundtrips L" and "wf_settings L s" and "json_Unmarshal L j s = Inr s'"
  shows "wf_settings L s'"
  using assms(3,2) unfolding json_Unmarshal_def
  by (rule decode_struct_pres) (rule set_field_wf [OF assms(1)])

lemma Bind_wf: "strconv_roundtrips L \<Longrightarrow> Bind L body = Inr s \<Longrightarrow> wf_settings L s"
  by (auto simp: Bind_def split: body.splits sum.splits
      intro: json_Unmarshal_wf [OF _ wf_zero_settings])

lemma Bind_Marshal:
  assumes "strconv_roundtrips L" and "Bind L body = Inr s"
  shows "\<exists>b. json_Marshal L s = Inr b \<and> json_Unmarshal L b zero_settings = Inr s"
  by (rule json_Marshal_roundtrip [OF assms(1) Bind_wf [OF assms]])


section \<open>The handlers on concrete requests\<close>

lemma strconv_int_roundtrips: "strconv_roundtrips strconv_int"
  unfolding strconv_roundtrips_def strconv_int_def
  using sint_ge [where 'a = 64] sint_lt [where 'a = 64]
  by simp

lemma Bind_scenario_A:
  "Bind strconv_int (JSONBody scenario_A) =
     Inr (zero_settings\<lparr>SMTP := Some [zero_smtp\<lparr>Host := ''a''\<rparr>]\<rparr>)"
  by (simp add: Bind_def scenario_A_def json_Unmarshal_def decode_smtp_def decode_struct_def
        find_settings_field find_smtp_field upper_ascii_Char assign_def decode_slice_def
        decode_bool_def decode_string_def slice_elems_def zero_settings_def zero_smtp_def)

lemma Bind_scenario_B:
  "Bind strconv_int (JSONBody scenario_B) =
     Inr (zero_settings\<lparr>SMTP := Some [zero_smtp\<lparr>Enabled := True, Host := ''mx.example.com'',
            Password := ''secret''\<rparr>]\<rparr>)"
  by (simp add: Bind_def scenario_B_def json_Unmarshal_def decode_smtp_def decode_struct_def
        find_settings_field find_smtp_field upper_ascii_Char assign_def decode_slice_def
        decode_bool_def decode_string_def slice_elems_def zero_settings_def zero_smtp_def)

lemma Marshal_zero_like:
  "Messengers s = None \<Longrightarrow> \<exists>b. json_Marshal L s = Inr b"
  by (simp add: json_Marshal_def settings_fields_def)


lemma has_enabled_filter: "has_enabled bs \<longleftrightarrow> filter Enabled bs \<noteq> []"
  by (induction bs) auto

lemma handleUpdateSettings_success:
  assumes "Bind L body = Inr s" and "json_Marshal L s = Inr b"
    and "has_enabled (slice_elems (SMTP s))"
  shows "handleUpdateSettings L body None running app =
     (if running then
        (JSON StatusOK (DataNeedsRestart True), app\<lparr>stored := b, needsRestart := True\<rparr>,
         [StepBind, StepMarshal, StepCheckSMTP, StepExec, StepHasRunningCampaigns,
          StepSetNeedsRestart])
      else
        (JSON StatusOK (DataBool True), app\<lparr>stored := b, reloads := reloads app @ [(500, SIGHUP)]\<rparr>,
         [StepBind, StepMarshal, StepCheckSMTP, StepExec, StepHasRunningCampaigns,
          StepGoReload]))"
  using assms by (simp add: handleUpdateSettings_def UpdateSettings_Exec_def)

lemma handleUpdateSettings_JSON:
  assumes "handleUpdateSettings L body failure running app = (JSON code d, app', steps)"
  shows "\<exists>s b. Bind L body = Inr s \<and> json_Marshal L s = Inr b \<and>
           has_enabled (slice_elems (SMTP s)) \<and> failure = None"
  using assms
  by (auto simp: handleUpdateSettings_def UpdateSettings_Exec_def
      split: sum.splits if_splits option.splits)

text \<open>
  Claim C1. Every successful update (the handler answers with \<^verbatim>\<open>c.JSON\<close>, which it does only
  after decoding, re-encoding, the SMTP check and the database statement have all
  succeeded) answers with status 200 and then: if \<^verbatim>\<open>HasRunningCampaigns\<close> reported true, the
  answer is \<^verbatim>\<open>{needs_restart: true}\<close>, the flag \<^verbatim>\<open>needsRestart\<close> is true afterwards, and no
  reload task was launched; if it reported false, the answer is the plain \<^verbatim>\<open>true\<close>, exactly
  one reload task (500 ms, SIGHUP) was launched, and the flag is as it was.
\<close>

theorem update_reload_decision:
  assumes "handleUpdateSettings L body failure running app = (JSON code d, app', steps)"
  shows "code = StatusOK \<and>
     (running \<longrightarrow>
        d = DataNeedsRestart True \<and> needsRestart app' \<and> reloads app' = reloads app \<and>
        StepGoReload \<notin> set steps) \<and>
     (\<not> running \<longrightarrow>
        d = DataBool True \<and> reloads app' = reloads app @ [(500, SIGHUP)] \<and>
        count_list steps StepGoReload = 1 \<and> needsRestart app' = needsRestart app \<and>
        StepSetNeedsRestart \<notin> set steps)"
proof -
  from handleUpdateSettings_JSON [OF assms] obtain s b where
    "Bind L body = Inr s" "json_Marshal L s = Inr b" "has_enabled (slice_elems (SMTP s))"
    "failure = None" by blast
  from handleUpdateSettings_success [OF this(1,2,3), of running app] assms this(4)
  show ?thesis by (cases running) auto
qed

lemma scenario_B_success:
  "\<exists>b. handleUpdateSettings strconv_int (JSONBody scenario_B) None running app =
     (if running then
        (JSON StatusOK (DataNeedsRestart True), app\<lparr>stored := b, needsRestart := True\<rparr>,
         [StepBind, StepMarshal, StepCheckSMTP, StepExec, StepHasRunningCampaigns,
          StepSetNeedsRestart])
      else
        (JSON StatusOK (DataBool True), app\<lparr>stored := b, reloads := reloads app @ [(500, SIGHUP)]\<rparr>,
         [StepBind, StepMarshal, StepCheckSMTP, StepExec, StepHasRunningCampaigns,
          StepGoReload]))"
proof -
  let ?s = "zero_settings\<lparr>SMTP := Some [zero_smtp\<lparr>Enabled := True, Host := ''mx.example.com'',
            Password := ''secret''\<rparr>]\<rparr> :: int settings"
  have "Messengers ?s = None" by (simp add: zero_settings_def)
  from Marshal_zero_like [OF this] obtain b where b: "json_Marshal strconv_int ?s = Inr b" by blast
  have "has_enabled (slice_elems (SMTP ?s))" by (simp add: slice_elems_def)
  from handleUpdateSettings_success [OF Bind_scenario_B b this] show ?thesis by blast
qed

theorem update_reload_decision_witness:
  "needsRestart (fst (snd (handleUpdateSettings strconv_int (JSONBody scenario_B) None True
       (initial_app stored_with_secrets)))) \<and>
   reloads (fst (snd (handleUpdateSettings strconv_int (JSONBody scenario_B) None True
       (initial_app stored_with_secrets)))) = [] \<and>
   reloads (fst (snd (handleUpdateSettings strconv_int (JSONBody scenario_B) None False
       (initial_app stored_with_secrets)))) = [(500, SIGHUP)] \<and>
   \<not> needsRestart (fst (snd (handleUpdateSettings strconv_int (JSONBody scenario_B) None False
       (initial_app stored_with_secrets))))"
proof -
  let ?app = "initial_app stored_with_secrets"
  obtain b1 where 1: "handleUpdateSettings strconv_int (JSONBody scenario_B) None True ?app =
      (JSON StatusOK (DataNeedsRestart True), ?app\<lparr>stored := b1, needsRestart := True\<rparr>,
         [StepBind, StepMarshal, StepCheckSMTP, StepExec, StepHasRunningCampaigns,
          StepSetNeedsRestart])"
    using scenario_B_success [of True ?app] by auto
  obtain b2 where 2: "handleUpdateSettings strconv_int (JSONBody scenario_B) None False ?app =
      (JSON StatusOK (DataBool True), ?app\<lparr>stored := b2, reloads := reloads ?app @ [(500, SIGHUP)]\<rparr>,
         [StepBind, StepMarshal, StepCheckSMTP, StepExec, StepHasRunningCampaigns,
          StepGoReload])"
    using scenario_B_success [of False ?app] by auto
  from update_reload_decision [OF 1] update_reload_decision [OF 2]
  show ?thesis unfolding 1 2 by (simp add: initial_app_def)
qed


lemma Bind_scenario_A_handle:
  "handleUpdateSettings strconv_int (JSONBody scenario_A) failure running app =
     (HTTPError StatusBadRequest (Text ''At least one SMTP block should be enabled''), app,
      [StepBind, StepMarshal, StepCheckSMTP])"
proof -
  let ?s = "zero_settings\<lparr>SMTP := Some [zero_smtp\<lparr>Host := ''a''\<rparr>]\<rparr> :: int settings"
  have "Messengers ?s = None" by (simp add: zero_settings_def)
  from Marshal_zero_like [OF this] obtain b where b: "json_Marshal strconv_int ?s = Inr b" by blast
  have "\<not> has_enabled (slice_elems (SMTP ?s))" by (simp add: slice_elems_def zero_smtp_def)
  with Bind_scenario_A b show ?thesis by (simp add: handleUpdateSettings_def)
qed

text \<open>
  Claim C3. When the request decodes to a document \<open>s\<close>, the update answers with the
  client error (status 400) if and only if no SMTP block of \<open>s\<close> is enabled (a \<^verbatim>\<open>nil\<close> or
  empty list included); and then the stored document is as it was. The number
  conversions are assumed to round-trip, which makes \<^verbatim>\<open>json.Marshal\<close> succeed on every
  decoded document.
\<close>

theorem validation_error_iff_no_enabled_smtp:
  assumes "strconv_roundtrips L" and "Bind L body = Inr s"
    and "handleUpdateSettings L body failure running app = (resp, app', steps)"
  shows "((\<exists>m. resp = HTTPError StatusBadRequest m) \<longleftrightarrow> filter Enabled (slice_elems (SMTP s)) = []) \<and>
         (filter Enabled (slice_elems (SMTP s)) = [] \<longrightarrow> stored app' = stored app)"
proof -
  from Bind_Marshal [OF assms(1,2)] obtain b where b: "json_Marshal L s = Inr b" by blast
  show ?thesis
  proof (cases "has_enabled (slice_elems (SMTP s))")
    case True
    with assms(2,3) b have "\<nexists>m. resp = HTTPError StatusBadRequest m"
      by (auto simp: handleUpdateSettings_def UpdateSettings_Exec_def StatusBadRequest_def
          StatusInternalServerError_def split: option.splits if_splits)
    with True show ?thesis by (simp add: has_enabled_filter)
  next
    case False
    with assms(2,3) b have "resp = HTTPError StatusBadRequest (Text ''At least one SMTP block should be enabled'')"
      and "app' = app"
      by (auto simp: handleUpdateSettings_def)
    with False show ?thesis by (simp add: has_enabled_filter)
  qed
qed

theorem validation_error_iff_no_enabled_smtp_witness:
  "strconv_roundtrips strconv_int \<and>
   fst (handleUpdateSettings strconv_int (JSONBody scenario_A) None False
          (initial_app stored_with_secrets))
     = HTTPError StatusBadRequest (Text ''At least one SMTP block should be enabled'') \<and>
   stored (fst (snd (handleUpdateSettings strconv_int (JSONBody scenario_A) None False
          (initial_app stored_with_secrets)))) = stored_with_secrets \<and>
   fst (handleUpdateSettings strconv_int (JSONBody scenario_B) None False
          (initial_app stored_with_secrets)) = JSON StatusOK (DataBool True)"
proof -
  let ?app = "initial_app stored_with_secrets"
  let ?h = "\<lambda>j. handleUpdateSettings strconv_int (JSONBody j) None False ?app"
  have A: "?h scenario_A = (fst (?h scenario_A), fst (snd (?h scenario_A)), snd (snd (?h scenario_A)))"
    by simp
  have B: "?h scenario_B = (fst (?h scenario_B), fst (snd (?h scenario_B)), snd (snd (?h scenario_B)))"
    by simp
  have fA: "filter Enabled (slice_elems (SMTP (zero_settings\<lparr>SMTP := Some [zero_smtp\<lparr>Host := ''a''\<rparr>]\<rparr> :: int settings))) = []"
    by (simp add: slice_elems_def zero_smtp_def)
  from validation_error_iff_no_enabled_smtp [OF strconv_int_roundtrips Bind_scenario_A A] fA
  have "\<exists>m. fst (?h scenario_A) = HTTPError StatusBadRequest m"
    and "stored (fst (snd (?h scenario_A))) = stored ?app" by blast+
  moreover
  have "filter Enabled (slice_elems (SMTP (zero_settings\<lparr>SMTP := Some [zero_smtp\<lparr>Enabled := True, Host := ''mx.example.com'',
            Password := ''secret''\<rparr>]\<rparr> :: int settings))) \<noteq> []"
    by (simp add: slice_elems_def)
  with validation_error_iff_no_enabled_smtp [OF strconv_int_roundtrips Bind_scenario_B B]
  have "\<nexists>m. fst (?h scenario_B) = HTTPError StatusBadRequest m" by blast
  moreover obtain b where "?h scenario_B = (JSON StatusOK (DataBool True),
      ?app\<lparr>stored := b, reloads := reloads ?app @ [(500, SIGHUP)]\<rparr>,
         [StepBind, StepMarshal, StepCheckSMTP, StepExec, StepHasRunningCampaigns, StepGoReload])"
    using scenario_B_success [of False ?app] by auto
  ultimately show ?thesis
    using strconv_int_roundtrips
    by (simp add: Bind_scenario_A_handle initial_app_def)
qed

text \<open>
  Claim C4. An update that does not answer with \<^verbatim>\<open>c.JSON\<close> leaves the whole state as it
  was (stored document, flag, launched tasks), reaches neither the assignment of the flag
  nor the \<^verbatim>\<open>go\<close> statement, and its answer is one of four: the error of \<^verbatim>\<open>c.Bind\<close>, the
  encoding error (500), the validation error (400), or the storage error (500) with the
  message of the database.
\<close>

theorem failed_update_changes_nothing:
  assumes "handleUpdateSettings L body failure running app = (resp, app', steps)"
    and "\<forall>code d. resp \<noteq> JSON code d"
  shows "app' = app \<and> StepGoReload \<notin> set steps \<and> StepSetNeedsRestart \<notin> set steps \<and>
     ((\<exists>e. resp = Err e \<and> Bind L body = Inl e) \<or>
      (\<exists>e. resp = HTTPError StatusInternalServerError
                     (Sprintf ''Error encoding settings: %v'' (ErrJSON e))) \<or>
      resp = HTTPError StatusBadRequest (Text ''At least one SMTP block should be enabled'') \<or>
      (\<exists>m. resp = HTTPError StatusInternalServerError
                     (Sprintf ''Error updating settings: %s'' (ErrText m)) \<and> failure = Some m))"
  using assms
  by (auto simp: handleUpdateSettings_def UpdateSettings_Exec_def
      split: sum.splits if_splits option.splits)


lemma Bind_refusing:
  "Bind strconv_refusing (JSONBody (JObj [(''messengers'', JArr [JNum 1])])) =
     Inr (zero_settings\<lparr>Messengers := Some [IFloat 1]\<rparr>)"
  by (simp add: Bind_def json_Unmarshal_def decode_struct_def
        find_settings_field upper_ascii_Char assign_def decode_slice_def slice_elems_def
        decode_iface_into_def strconv_refusing_def)

lemma Marshal_refusing:
  "json_Marshal strconv_refusing (zero_settings\<lparr>Messengers := Some [IFloat 1]\<rparr>) =
     Inl UnsupportedValueError"
  by (simp add: json_Marshal_def settings_fields_def strconv_refusing_def)

lemma refusing_encode_error:
  "handleUpdateSettings strconv_refusing (JSONBody (JObj [(''messengers'', JArr [JNum 1])]))
       failure running app =
     (HTTPError StatusInternalServerError
        (Sprintf ''Error encoding settings: %v'' (ErrJSON UnsupportedValueError)),
      app, [StepBind, StepMarshal])"
  by (simp add: handleUpdateSettings_def Bind_refusing Marshal_refusing)

lemma NoJSON_refused:
  "handleUpdateSettings L NoJSON failure running app = (Err BindRefused, app, [StepBind])"
  by (simp add: handleUpdateSettings_def Bind_def)

lemma scenario_B_storage_error:
  "handleUpdateSettings strconv_int (JSONBody scenario_B) (Some m) running app =
     (HTTPError StatusInternalServerError (Sprintf ''Error updating settings: %s'' (ErrText m)),
      app, [StepBind, StepMarshal, StepCheckSMTP, StepExec])"
proof -
  let ?s = "zero_settings\<lparr>SMTP := Some [zero_smtp\<lparr>Enabled := True, Host := ''mx.example.com'',
            Password := ''secret''\<rparr>]\<rparr> :: int settings"
  have "Messengers ?s = None" by (simp add: zero_settings_def)
  from Marshal_zero_like [OF this] obtain b where b: "json_Marshal strconv_int ?s = Inr b" by blast
  have "has_enabled (slice_elems (SMTP ?s))" by (simp add: slice_elems_def)
  with Bind_scenario_B b show ?thesis
    by (simp add: handleUpdateSettings_def UpdateSettings_Exec_def)
qed

theorem failed_update_changes_nothing_witness:
  "fst (snd (handleUpdateSettings strconv_int NoJSON None True (initial_app stored_with_secrets)))
     = initial_app stored_with_secrets \<and>
   fst (snd (handleUpdateSettings strconv_int (JSONBody scenario_A) None True
     (initial_app stored_with_secrets))) = initial_app stored_with_secrets \<and>
   fst (snd (handleUpdateSettings strconv_refusing
     (JSONBody (JObj [(''messengers'', JArr [JNum 1])])) None True
     (initial_app stored_with_secrets))) = initial_app stored_with_secrets \<and>
   fst (snd (handleUpdateSettings strconv_int (JSONBody scenario_B) (Some ''connection refused'')
     True (initial_app stored_with_secrets))) = initial_app stored_with_secrets"
  using
    failed_update_changes_nothing [OF NoJSON_refused [of strconv_int None True
      "initial_app stored_with_secrets"]]
    failed_update_changes_nothing [OF Bind_scenario_A_handle [of None True
      "initial_app stored_with_secrets"]]
    failed_update_changes_nothing [OF refusing_encode_error [of None True
      "initial_app stored_with_secrets"]]
    failed_update_changes_nothing [OF scenario_B_storage_error [of "''connection refused''" True
      "initial_app stored_with_secrets"]]
  by (simp add: NoJSON_refused Bind_scenario_A_handle refusing_encode_error
        scenario_B_storage_error)

text \<open>
  Claim C5 as stated fails: in scenario A the candidate fails validation, and
  \<^verbatim>\<open>json.Marshal\<close> has been run on it before.
\<close>

theorem validation_before_canonicalization_counterexample:
  "fst (handleUpdateSettings strconv_int (JSONBody scenario_A) None False
          (initial_app stored_with_secrets))
     = HTTPError StatusBadRequest (Text ''At least one SMTP block should be enabled'') \<and>
   snd (snd (handleUpdateSettings strconv_int (JSONBody scenario_A) None False
          (initial_app stored_with_secrets)))
     = [StepBind, StepMarshal, StepCheckSMTP]"
  by (simp add: Bind_scenario_A_handle)

text \<open>
  Claim C5, as amended. \<^verbatim>\<open>json.Marshal\<close> runs before the SMTP check, not after it: whenever
  the check is reached, the document has been decoded and re-encoded with success, and
  the first three steps are bind, marshal, check; a validation error comes after exactly
  these three steps and changes nothing; an encoding error comes after bind and marshal
  alone, without the check having run, and changes nothing.
\<close>

theorem canonicalization_before_validation:
  assumes "handleUpdateSettings L body failure running app = (resp, app', steps)"
  shows "(StepCheckSMTP \<in> set steps \<longrightarrow>
            (\<exists>s b. Bind L body = Inr s \<and> json_Marshal L s = Inr b) \<and>
            take 3 steps = [StepBind, StepMarshal, StepCheckSMTP]) \<and>
         ((\<exists>m. resp = HTTPError StatusBadRequest m) \<longrightarrow>
            steps = [StepBind, StepMarshal, StepCheckSMTP] \<and> app' = app) \<and>
         ((\<exists>e. resp = HTTPError StatusInternalServerError
                        (Sprintf ''Error encoding settings: %v'' (ErrJSON e))) \<longrightarrow>
            steps = [StepBind, StepMarshal] \<and> app' = app)"
  using assms
  by (auto simp: handleUpdateSettings_def UpdateSettings_Exec_def StatusBadRequest_def
        StatusInternalServerError_def
      split: sum.splits if_splits option.splits)

theorem canonicalization_before_validation_witness:
  "StepCheckSMTP \<in> set (snd (snd (handleUpdateSettings strconv_int (JSONBody scenario_A) None False
          (initial_app stored_with_secrets)))) \<and>
   take 3 (snd (snd (handleUpdateSettings strconv_int (JSONBody scenario_A) None False
          (initial_app stored_with_secrets)))) = [StepBind, StepMarshal, StepCheckSMTP] \<and>
   snd (snd (handleUpdateSettings strconv_refusing
          (JSONBody (JObj [(''messengers'', JArr [JNum 1])])) None False
          (initial_app stored_with_secrets))) = [StepBind, StepMarshal]"
  using
    canonicalization_before_validation [OF Bind_scenario_A_handle [of None False
      "initial_app stored_with_secrets"]]
    canonicalization_before_validation [OF refusing_encode_error [of None False
      "initial_app stored_with_secrets"]]
  by (simp add: Bind_scenario_A_handle refusing_encode_error)

text \<open>
  Claim C9 as stated fails: in scenario A the reason of the client error is not the text
  that the claim gives.
\<close>

theorem validation_reason_counterexample:
  "fst (handleUpdateSettings strconv_int (JSONBody scenario_A) None False
          (initial_app stored_with_secrets))
     = HTTPError StatusBadRequest (Text ''At least one SMTP block should be enabled'') \<and>
   ''At least one SMTP block should be enabled'' \<noteq> ''at least one SMTP block must be enabled''"
  by (simp add: Bind_scenario_A_handle)

text \<open>
  Claim C9, as amended. Whenever the update answers with status 400, the message is
  exactly \<^verbatim>\<open>At least one SMTP block should be enabled\<close>.
\<close>

theorem validation_reason:
  assumes "handleUpdateSettings L body failure running app = (HTTPError StatusBadRequest m, app', steps)"
  shows "m = Text ''At least one SMTP block should be enabled''"
  using assms
  by (auto simp: handleUpdateSettings_def UpdateSettings_Exec_def StatusBadRequest_def
        StatusInternalServerError_def
      split: sum.splits if_splits option.splits)

theorem validation_reason_witness:
  "fst (handleUpdateSettings strconv_int (JSONBody scenario_A) None False
          (initial_app stored_with_secrets))
     = HTTPError StatusBadRequest (Text ''At least one SMTP block should be enabled'')"
  using validation_reason [OF Bind_scenario_A_handle [of None False "initial_app stored_with_secrets"]]
  by (simp add: Bind_scenario_A_handle)


section \<open>Reading, the life of the flag, and what an update stores\<close>

lemma clear_passwords_eq:
  "i \<le> length bs \<Longrightarrow>
   clear_passwords i bs = take i bs @ map (\<lambda>b. b\<lparr>Password := []\<rparr>) (drop i bs)"
proof (induction i bs rule: clear_passwords.induct)
  case (1 i bs)
  show ?case
  proof (cases "i < length bs")
    case True
    let ?bs = "bs[i := (bs ! i)\<lparr>Password := []\<rparr>]"
    from True have "clear_passwords i bs = clear_passwords (i + 1) ?bs"
      by (subst clear_passwords.simps) simp
    also from True "1.IH" have "\<dots> = take (i + 1) ?bs @ map (\<lambda>b. b\<lparr>Password := []\<rparr>) (drop (i + 1) ?bs)"
      by simp
    also from True have "take (i + 1) ?bs = take i bs @ [(bs ! i)\<lparr>Password := []\<rparr>]"
      by (simp add: take_Suc_conv_app_nth)
    also from True have "drop (i + 1) ?bs = drop (Suc i) bs" by simp
    finally show ?thesis using True
      by (simp add: Cons_nth_drop_Suc [symmetric])
  next
    case False
    with "1.prems" show ?thesis by (subst clear_passwords.simps) simp
  qed
qed

lemma clear_passwords_0: "clear_passwords 0 bs = map (\<lambda>b. b\<lparr>Password := []\<rparr>) bs"
  using clear_passwords_eq [of 0 bs] by simp

lemma Unmarshal_stored_with_secrets:
  "json_Unmarshal strconv_int stored_with_secrets zero_settings =
     Inr (zero_settings
       \<lparr>AppRootURL := ''http://localhost'',
        SMTP := Some [zero_smtp\<lparr>Enabled := True, Host := ''mx'', Password := ''secret''\<rparr>,
                      zero_smtp\<lparr>Host := ''mx2'', Password := ''other''\<rparr>],
        UploadS3AwsSecretAccessKey := ''key''\<rparr>)"
  by (simp add: stored_with_secrets_def json_Unmarshal_def decode_smtp_def decode_struct_def
        find_settings_field find_smtp_field upper_ascii_Char assign_def decode_slice_def
        decode_bool_def decode_string_def slice_elems_def zero_settings_def zero_smtp_def)

text \<open>
  Claim C2. For every document \<open>D\<close> that the read operation returns, the stored document
  decodes to some \<open>s\<close>, the object-storage secret key of \<open>D\<close> is empty, \<open>D\<close> has as many
  SMTP blocks as \<open>s\<close> (or \<^verbatim>\<open>nil\<close> when \<open>s\<close> has \<^verbatim>\<open>nil\<close>), each with an empty password and
  every other field as in the block of \<open>s\<close> at the same place, and every other field of
  \<open>D\<close> is the field of \<open>s\<close>. The read leaves the state as it was.
\<close>

theorem read_scrubs_secrets:
  assumes "handleGetSettings L failure app = (JSON code (DataSettings D), app')"
  shows "\<exists>s. json_Unmarshal L (stored app) zero_settings = Inr s \<and>
     UploadS3AwsSecretAccessKey D = [] \<and>
     rel_option (list_all2 (\<lambda>b' b.
         Password b' = [] \<and> Enabled b' = Enabled b \<and> Host b' = Host b \<and>
         HelloHostname b' = HelloHostname b \<and> Port b' = Port b \<and>
         AuthProtocol b' = AuthProtocol b \<and> Username b' = Username b \<and>
         EmailHeaders b' = EmailHeaders b \<and> MaxConns b' = MaxConns b \<and>
         MaxMsgRetries b' = MaxMsgRetries b \<and> IdleTimeout b' = IdleTimeout b \<and>
         WaitTimeout b' = WaitTimeout b \<and> TLSEnabled b' = TLSEnabled b \<and>
         TLSSkipVerify b' = TLSSkipVerify b)) (SMTP D) (SMTP s) \<and>
     AppRootURL D = AppRootURL s \<and> AppLogoURL D = AppLogoURL s \<and>
     AppFaviconURL D = AppFaviconURL s \<and> AppFromEmail D = AppFromEmail s \<and>
     AppNotifyEmails D = AppNotifyEmails s \<and> AppBatchSize D = AppBatchSize s \<and>
     AppConcurrency D = AppConcurrency s \<and> AppMaxSendErrors D = AppMaxSendErrors s \<and>
     AppMessageRate D = AppMessageRate s \<and> Messengers D = Messengers s \<and>
     PrivacyAllowBlacklist D = PrivacyAllowBlacklist s \<and>
     PrivacyAllowExport D = PrivacyAllowExport s \<and>
     PrivacyAllowWipe D = PrivacyAllowWipe s \<and> PrivacyExportable D = PrivacyExportable s \<and>
     UploadProvider D = UploadProvider s \<and>
     UploadFilesystemUploadPath D = UploadFilesystemUploadPath s \<and>
     UploadFilesystemUploadURI D = UploadFilesystemUploadURI s \<and>
     UploadS3AwsAccessKeyID D = UploadS3AwsAccessKeyID s \<and>
     UploadS3AwsDefaultRegion D = UploadS3AwsDefaultRegion s \<and>
     UploadS3Bucket D = UploadS3Bucket s \<and> UploadS3BucketDomain D = UploadS3BucketDomain s \<and>
     UploadS3BucketPath D = UploadS3BucketPath s \<and> UploadS3BucketType D = UploadS3BucketType s \<and>
     UploadS3Expiry D = UploadS3Expiry s \<and>
     app' = app"
proof -
  from assms obtain s where s: "json_Unmarshal L (stored app) zero_settings = Inr s"
    and D: "D = scrub s" and app: "app' = app"
    by (auto simp: handleGetSettings_def GetSettings_Get_def split: option.splits sum.splits)
  have "rel_option (list_all2 (\<lambda>b' b.
         Password b' = [] \<and> Enabled b' = Enabled b \<and> Host b' = Host b \<and>
         HelloHostname b' = HelloHostname b \<and> Port b' = Port b \<and>
         AuthProtocol b' = AuthProtocol b \<and> Username b' = Username b \<and>
         EmailHeaders b' = EmailHeaders b \<and> MaxConns b' = MaxConns b \<and>
         MaxMsgRetries b' = MaxMsgRetries b \<and> IdleTimeout b' = IdleTimeout b \<and>
         WaitTimeout b' = WaitTimeout b \<and> TLSEnabled b' = TLSEnabled b \<and>
         TLSSkipVerify b' = TLSSkipVerify b)) (SMTP (scrub s)) (SMTP s)"
    by (cases "SMTP s") (simp_all add: scrub_def clear_passwords_0 list_all2_map1 list_all2_same)
  with s D app show ?thesis by (simp add: scrub_def)
qed

theorem read_scrubs_secrets_witness:
  "\<exists>D. fst (handleGetSettings strconv_int None (initial_app stored_with_secrets))
         = JSON StatusOK (DataSettings D) \<and>
       UploadS3AwsSecretAccessKey D = [] \<and>
       map Password (slice_elems (SMTP D)) = [[], []] \<and>
       map Host (slice_elems (SMTP D)) = [''mx'', ''mx2''] \<and>
       AppRootURL D = ''http://localhost''"
proof -
  let ?app = "initial_app stored_with_secrets"
  let ?s = "zero_settings
       \<lparr>AppRootURL := ''http://localhost'',
        SMTP := Some [zero_smtp\<lparr>Enabled := True, Host := ''mx'', Password := ''secret''\<rparr>,
                      zero_smtp\<lparr>Host := ''mx2'', Password := ''other''\<rparr>],
        UploadS3AwsSecretAccessKey := ''key''\<rparr> :: int settings"
  have e: "handleGetSettings strconv_int None ?app = (JSON StatusOK (DataSettings (scrub ?s)), ?app)"
    by (simp add: handleGetSettings_def GetSettings_Get_def initial_app_def
          Unmarshal_stored_with_secrets)
  from read_scrubs_secrets [OF e] obtain s where
    s: "json_Unmarshal strconv_int (stored ?app) zero_settings = Inr s"
    and k: "UploadS3AwsSecretAccessKey (scrub ?s) = []"
    and r: "rel_option (list_all2 (\<lambda>b' b.
         Password b' = [] \<and> Enabled b' = Enabled b \<and> Host b' = Host b \<and>
         HelloHostname b' = HelloHostname b \<and> Port b' = Port b \<and>
         AuthProtocol b' = AuthProtocol b \<and> Username b' = Username b \<and>
         EmailHeaders b' = EmailHeaders b \<and> MaxConns b' = MaxConns b \<and>
         MaxMsgRetries b' = MaxMsgRetries b \<and> IdleTimeout b' = IdleTimeout b \<and>
         WaitTimeout b' = WaitTimeout b \<and> TLSEnabled b' = TLSEnabled b \<and>
         TLSSkipVerify b' = TLSSkipVerify b)) (SMTP (scrub ?s)) (SMTP s)"
    and u: "AppRootURL (scrub ?s) = AppRootURL s"
    by blast
  from s have s': "s = ?s" by (simp add: initial_app_def Unmarshal_stored_with_secrets)
  from r obtain x y where xy: "SMTP (scrub ?s) = Some [x, y]"
    and "Password x = []" "Password y = []" "Host x = ''mx''" "Host y = ''mx2''"
    unfolding s'
    by (cases "SMTP (scrub ?s)")
       (auto simp: zero_settings_def zero_smtp_def list_all2_Cons2)
  with k u e show ?thesis
    by (simp add: s' slice_elems_def zero_settings_def)
qed


lemma handleGetSettings_state: "snd (handleGetSettings L failure app) = app"
  by (simp add: handleGetSettings_def GetSettings_Get_def split: option.splits sum.splits)

lemma handleUpdateSettings_flag:
  "needsRestart (fst (snd (handleUpdateSettings L body failure running app))) \<longleftrightarrow>
     needsRestart app \<or>
     (running \<and> (\<exists>d. fst (handleUpdateSettings L body failure running app) = JSON StatusOK d))"
  by (auto simp: handleUpdateSettings_def UpdateSettings_Exec_def
      split: sum.splits if_splits option.splits)

lemma serve_flag:
  "needsRestart (serve L r app) \<longleftrightarrow>
     needsRestart app \<or>
     (\<exists>body failure d. r = UpdateRequest body failure True \<and>
        fst (handleUpdateSettings L body failure True app) = JSON StatusOK d)"
proof (cases r)
  case (GetRequest failure)
  then show ?thesis by (simp add: handleGetSettings_state)
next
  case (UpdateRequest body failure running)
  then show ?thesis
    using handleUpdateSettings_flag [of L body failure running app] by auto
qed

lemma serve_all_flag: "needsRestart app \<Longrightarrow> needsRestart (serve_all L rs app)"
proof (induction rs arbitrary: app)
  case Nil
  then show ?case by simp
next
  case (Cons r rs)
  from Cons.prems have "needsRestart (serve L r app)" by (simp add: serve_flag)
  from Cons.IH [OF this] show ?case by simp
qed

text \<open>
  Claim C6. The flag is false in the initial state; after any one request it is true
  exactly when it was true before or the request is an update that succeeded while
  \<^verbatim>\<open>HasRunningCampaigns\<close> reported true; hence once true it is true after every sequence of
  reads and updates (a further successful update during activity finds it true and
  leaves it true).
\<close>

theorem needsRestart_sticky:
  "\<not> needsRestart (initial_app doc) \<and>
   (needsRestart (serve L r app) \<longleftrightarrow>
      needsRestart app \<or>
      (\<exists>body failure d. r = UpdateRequest body failure True \<and>
         fst (handleUpdateSettings L body failure True app) = JSON StatusOK d)) \<and>
   (needsRestart app \<longrightarrow> needsRestart (serve_all L rs app))"
  using serve_flag [of L r app] serve_all_flag [of app L rs]
  by (simp add: initial_app_def)

theorem needsRestart_sticky_witness:
  "\<not> needsRestart (initial_app stored_with_secrets) \<and>
   needsRestart (serve strconv_int (UpdateRequest (JSONBody scenario_B) None True)
     (initial_app stored_with_secrets)) \<and>
   needsRestart (serve_all strconv_int
     [GetRequest None, UpdateRequest (JSONBody scenario_B) None False,
      UpdateRequest (JSONBody scenario_A) None False, UpdateRequest NoJSON None True,
      UpdateRequest (JSONBody scenario_B) None True]
     (serve strconv_int (UpdateRequest (JSONBody scenario_B) None True)
        (initial_app stored_with_secrets)))"
proof -
  let ?app = "initial_app stored_with_secrets"
  let ?r = "UpdateRequest (JSONBody scenario_B) None True"
  obtain b where "handleUpdateSettings strconv_int (JSONBody scenario_B) None True ?app =
      (JSON StatusOK (DataNeedsRestart True), ?app\<lparr>stored := b, needsRestart := True\<rparr>,
         [StepBind, StepMarshal, StepCheckSMTP, StepExec, StepHasRunningCampaigns,
          StepSetNeedsRestart])"
    using scenario_B_success [of True ?app] by auto
  then have 1: "needsRestart (serve strconv_int ?r ?app)" by simp
  from needsRestart_sticky [of stored_with_secrets strconv_int ?r ?app]
  have 0: "\<not> needsRestart ?app" by blast
  from needsRestart_sticky [of stored_with_secrets strconv_int ?r "serve strconv_int ?r ?app"
      "[GetRequest None, UpdateRequest (JSONBody scenario_B) None False,
      UpdateRequest (JSONBody scenario_A) None False, UpdateRequest NoJSON None True,
      UpdateRequest (JSONBody scenario_B) None True]"] 1
  have 2: "needsRestart (serve_all strconv_int
     [GetRequest None, UpdateRequest (JSONBody scenario_B) None False,
      UpdateRequest (JSONBody scenario_A) None False, UpdateRequest NoJSON None True,
      UpdateRequest (JSONBody scenario_B) None True]
     (serve strconv_int ?r ?app))" by blast
  from 0 1 2 show ?thesis by blast
qed

lemma Unmarshal_sample_request:
  "json_Unmarshal strconv_int sample_request zero_settings = Inr sample_settings"
  by (simp add: sample_request_def sample_settings_def json_Unmarshal_def decode_smtp_def
        decode_struct_def find_settings_field find_smtp_field upper_ascii_Char assign_def
        decode_slice_def decode_map_def decode_bool_def decode_string_def decode_int_def
        decode_iface_into_def slice_elems_def strconv_int_def
        zero_settings_def zero_smtp_def)

text \<open>
  Claim C8. For every JSON value \<open>x\<close> that decodes into the settings, decoding and
  re-encoding \<open>x\<close> succeeds with some \<open>b\<close>, doing the same to \<open>b\<close> gives \<open>b\<close> again, and \<open>b\<close>
  decodes to the document that \<open>x\<close> decodes to; the messengers and the SMTP blocks are part
  of the document. The number conversions are assumed to round-trip.
\<close>

theorem sanitize_idempotent:
  assumes "strconv_roundtrips L" and "json_Unmarshal L x zero_settings = Inr s"
  shows "\<exists>b. sanitize L x = Inr b \<and> sanitize L b = Inr b \<and>
              json_Unmarshal L b zero_settings = Inr s"
proof -
  from json_Unmarshal_wf [OF assms(1) wf_zero_settings assms(2)] have "wf_settings L s" .
  from json_Marshal_roundtrip [OF assms(1) this] obtain b where
    "json_Marshal L s = Inr b" "json_Unmarshal L b zero_settings = Inr s" by blast
  with assms(2) show ?thesis by (simp add: sanitize_def)
qed

theorem sanitize_idempotent_witness:
  "strconv_roundtrips strconv_int \<and>
   json_Unmarshal strconv_int sample_request zero_settings = Inr sample_settings \<and>
   (\<exists>b. sanitize strconv_int sample_request = Inr b \<and> sanitize strconv_int b = Inr b \<and>
         json_Unmarshal strconv_int b zero_settings = Inr sample_settings)"
  using sanitize_idempotent [OF strconv_int_roundtrips Unmarshal_sample_request]
    strconv_int_roundtrips Unmarshal_sample_request
  by blast

lemma decode_members_frame:
  assumes "decode_members fnd st kvs s0 = Inr s"
    and "filter (\<lambda>(k, v). fnd k = Some f) kvs = []"
    and "\<And>g v s s'. st g v s = Inr s' \<Longrightarrow> g \<noteq> f \<Longrightarrow> proj s' = proj s"
  shows "proj s = proj s0"
  using assms(1,2)
proof (induction kvs arbitrary: s0)
  case Nil
  then show ?case by simp
next
  case (Cons kv kvs)
  obtain k v where kv: "kv = (k, v)" by (cases kv)
  from Cons.prems(2) kv have nf: "fnd k \<noteq> Some f"
    and rest: "filter (\<lambda>(k, v). fnd k = Some f) kvs = []"
    by (auto split: if_splits)
  show ?case
  proof (cases "fnd k")
    case None
    with Cons.prems(1) kv have "decode_members fnd st kvs s0 = Inr s" by simp
    from Cons.IH [OF this rest] show ?thesis .
  next
    case (Some g)
    with Cons.prems(1) kv obtain s1 where s1: "st g v s0 = Inr s1"
      and r: "decode_members fnd st kvs s1 = Inr s"
      by (cases "st g v s0") auto
    from Some nf have "g \<noteq> f" by auto
    from assms(3) [OF s1 this] Cons.IH [OF r rest] show ?thesis by simp
  qed
qed

lemma decode_members_append:
  "decode_members fnd st (xs @ ys) s =
     (case decode_members fnd st xs s of Inl e \<Rightarrow> Inl e | Inr s1 \<Rightarrow> decode_members fnd st ys s1)"
  by (induction xs arbitrary: s) (auto split: option.splits sum.splits)

lemma decode_elems_fresh:
  "decode_elems dec z js [] = Inr xs \<Longrightarrow> list_all2 (\<lambda>j x. dec j z = Inr x) js xs"
  by (induction js arbitrary: xs) (auto split: sum.splits)

lemma set_field_frame:
  assumes "set_field L g v s = Inr s'" and "g \<noteq> f"
  shows "encode_field L f s' = encode_field L f s"
  using assms by (cases g; cases f; auto simp: assign_Inr)

lemma set_field_frame_SMTP:
  assumes "set_field L g v s = Inr s'" and "g \<noteq> F_SMTP"
  shows "SMTP s' = SMTP s"
  using assms by (cases g; auto simp: assign_Inr)

lemma set_smtp_field_frame:
  assumes "set_smtp_field L g v b = Inr b'" and "g \<noteq> f"
  shows "encode_smtp_field L f b' = encode_smtp_field L f b"
  using assms by (cases g; cases f; auto simp: assign_Inr)


lemma settings_tag_inj: "settings_tag f = settings_tag g \<longleftrightarrow> f = g"
proof
  assume e: "settings_tag f = settings_tag g"
  have "Some f = find_field settings_tag settings_fields (settings_tag f)"
    by (simp only: find_settings_tag)
  also have "\<dots> = find_field settings_tag settings_fields (settings_tag g)"
    by (simp only: e)
  also have "\<dots> = Some g" by (simp only: find_settings_tag)
  finally show "f = g" by (simp only: option.inject)
next
  assume "f = g"
  then show "settings_tag f = settings_tag g" by (simp only:)
qed

lemma smtp_tag_inj: "smtp_tag f = smtp_tag g \<longleftrightarrow> f = g"
proof
  assume e: "smtp_tag f = smtp_tag g"
  have "Some f = find_field smtp_tag smtp_fields (smtp_tag f)"
    by (simp only: find_smtp_tag)
  also have "\<dots> = find_field smtp_tag smtp_fields (smtp_tag g)"
    by (simp only: e)
  also have "\<dots> = Some g" by (simp only: find_smtp_tag)
  finally show "f = g" by (simp only: option.inject)
next
  assume "f = g"
  then show "smtp_tag f = smtp_tag g" by (simp only:)
qed

lemma settings_fields_all: "f \<in> set settings_fields"
  by (cases f) (simp_all add: settings_fields_def)

lemma smtp_fields_all: "f \<in> set smtp_fields"
  by (cases f) (simp_all add: smtp_fields_def)

lemma encode_members_lookup:
  "encode_members L fs s = Inr kvs \<Longrightarrow> f \<in> set fs \<Longrightarrow>
   \<exists>j. encode_field L f s = Inr j \<and> map_of kvs (settings_tag f) = Some j"
  by (induction fs arbitrary: kvs)
     (auto simp: settings_tag_inj simp del: settings_tag.simps encode_field.simps
       split: sum.splits)

lemma json_Marshal_member:
  assumes "json_Marshal L s = Inr b"
  shows "\<exists>j. encode_field L f s = Inr j \<and> member (settings_tag f) b = Some j"
proof -
  from assms obtain kvs where kvs: "encode_members L settings_fields s = Inr kvs"
    and b: "b = JObj kvs"
    by (auto simp: json_Marshal_def split: sum.splits)
  from encode_members_lookup [OF kvs settings_fields_all [of f]] b show ?thesis
    by (simp add: member_def)
qed

lemma map_of_tagged:
  "inj tag \<Longrightarrow> f \<in> set fs \<Longrightarrow> map_of (map (\<lambda>g. (tag g, h g)) fs) (tag f) = Some (h f)"
  by (induction fs) (auto simp: inj_eq)

lemma encode_smtp_member:
  "member (smtp_tag g) (encode_smtp L b) = Some (encode_smtp_field L g b)"
proof -
  have "inj smtp_tag" by (rule injI) (simp only: smtp_tag_inj)
  from map_of_tagged [of smtp_tag g smtp_fields "\<lambda>f. encode_smtp_field L f b",
      OF this smtp_fields_all]
  show ?thesis by (simp only: member_def encode_smtp_def json.case)
qed

lemma json_Marshal_zero: "json_Marshal L zero_settings = Inr (zero_document L)"
  by (simp add: json_Marshal_def settings_fields_def zero_settings_def encode_int_def
        encode_slice_def zero_document_def)

lemma encode_smtp_zero: "encode_smtp L zero_smtp = zero_block L"
  by (simp add: encode_smtp_def smtp_fields_def zero_smtp_def encode_int_def encode_slice_def
        zero_block_def)

lemma omitted_field_zero:
  assumes "json_Unmarshal L (JObj kvs) zero_settings = Inr s"
    and "omitted settings_tag settings_fields f kvs"
    and "json_Marshal L s = Inr b" and "json_Marshal L zero_settings = Inr z"
  shows "member (settings_tag f) b = member (settings_tag f) z"
proof -
  from assms(1) have d: "decode_members (find_field settings_tag settings_fields) (set_field L)
      kvs zero_settings = Inr s"
    by (simp add: json_Unmarshal_def decode_struct_def)
  from assms(2) have o: "filter (\<lambda>(k, v). find_field settings_tag settings_fields k = Some f) kvs = []"
    by (simp add: omitted_def)
  have "encode_field L f s = encode_field L f zero_settings"
    by (rule decode_members_frame [of _ _ kvs zero_settings s f "encode_field L f", OF d o])
       (rule set_field_frame)
  with json_Marshal_member [OF assms(3), of f] json_Marshal_member [OF assms(4), of f]
  show ?thesis by auto
qed

lemma omitted_block_field_zero:
  assumes "decode_smtp L (JObj kvs) zero_smtp = Inr blk"
    and "omitted smtp_tag smtp_fields g kvs"
  shows "member (smtp_tag g) (encode_smtp L blk) = member (smtp_tag g) (encode_smtp L zero_smtp)"
proof -
  from assms(1) have d: "decode_members (find_field smtp_tag smtp_fields) (set_smtp_field L)
      kvs zero_smtp = Inr blk"
    by (simp add: decode_smtp_def decode_struct_def)
  from assms(2) have o: "filter (\<lambda>(k, v). find_field smtp_tag smtp_fields k = Some g) kvs = []"
    by (simp add: omitted_def)
  have "encode_smtp_field L g blk = encode_smtp_field L g zero_smtp"
    by (rule decode_members_frame [of _ _ kvs zero_smtp blk g "encode_smtp_field L g", OF d o])
       (rule set_smtp_field_frame)
  then show ?thesis by (simp only: encode_smtp_member)
qed

lemma single_smtp_member:
  assumes d: "json_Unmarshal L (JObj (pre @ (k, JArr js) # post)) zero_settings = Inr s"
    and k: "find_field settings_tag settings_fields k = Some F_SMTP"
    and o: "omitted settings_tag settings_fields F_SMTP (pre @ post)"
  shows "\<exists>blks. SMTP s = Some blks \<and>
           list_all2 (\<lambda>j blk. decode_smtp L j zero_smtp = Inr blk) js blks"
proof -
  let ?fnd = "find_field settings_tag settings_fields"
  from o have op: "filter (\<lambda>(k, v). ?fnd k = Some F_SMTP) pre = []"
    and oq: "filter (\<lambda>(k, v). ?fnd k = Some F_SMTP) post = []"
    by (simp_all add: omitted_def)
  from d obtain s1 where s1: "decode_members ?fnd (set_field L) pre zero_settings = Inr s1"
    and r: "decode_members ?fnd (set_field L) ((k, JArr js) # post) s1 = Inr s"
    by (auto simp: json_Unmarshal_def decode_struct_def decode_members_append split: sum.splits)
  from decode_members_frame [of ?fnd "set_field L" pre zero_settings s1 F_SMTP SMTP,
      OF s1 op set_field_frame_SMTP]
  have n: "SMTP s1 = None" by (simp add: zero_settings_def)
  from r k obtain s2 where s2: "set_field L F_SMTP (JArr js) s1 = Inr s2"
    and r2: "decode_members ?fnd (set_field L) post s2 = Inr s"
    by (auto split: sum.splits)
  from s2 n obtain blks where blks: "decode_elems (decode_smtp L) zero_smtp js [] = Inr blks"
    and e: "SMTP s2 = Some blks"
    by (auto simp: assign_Inr decode_slice_def slice_elems_def split: sum.splits)
  from decode_members_frame [of ?fnd "set_field L" post s2 s F_SMTP SMTP,
      OF r2 oq set_field_frame_SMTP]
  have "SMTP s = SMTP s2" .
  with e decode_elems_fresh [OF blks] show ?thesis by simp
qed


text \<open>
  Claim C10. After a successful update the stored document is \<^verbatim>\<open>json.Marshal\<close> of the
  settings that the request decodes to, whatever the state before. Every field that no
  key of the request object matches is stored as in the zero document (empty string,
  \<open>0\<close>, \<open>false\<close>, \<^verbatim>\<open>null\<close>); and when one key of the request matches \<^verbatim>\<open>smtp\<close> and holds an
  array, the stored \<^verbatim>\<open>smtp\<close> member has one block for each element, and every field
  that no key of an element matches is stored as in the zero block, the password
  included.
\<close>

theorem update_persists_reencoding:
  assumes "handleUpdateSettings L body failure running app = (JSON code d, app', steps)"
  shows "\<exists>s b. Bind L body = Inr s \<and> json_Marshal L s = Inr b \<and> stored app' = b \<and>
     (\<forall>app2. stored (fst (snd (handleUpdateSettings L body failure running app2))) = b) \<and>
     json_Marshal L zero_settings = Inr (zero_document L) \<and>
     encode_smtp L zero_smtp = zero_block L \<and>
     (\<forall>kvs f. body = JSONBody (JObj kvs) \<longrightarrow> omitted settings_tag settings_fields f kvs \<longrightarrow>
        member (settings_tag f) b = member (settings_tag f) (zero_document L)) \<and>
     (\<forall>pre k js post. body = JSONBody (JObj (pre @ (k, JArr js) # post)) \<longrightarrow>
        find_field settings_tag settings_fields k = Some F_SMTP \<longrightarrow>
        omitted settings_tag settings_fields F_SMTP (pre @ post) \<longrightarrow>
        (\<exists>blks. member (settings_tag F_SMTP) b = Some (JArr (map (encode_smtp L) blks)) \<and>
           list_all2 (\<lambda>j blk. \<forall>kvs g. j = JObj kvs \<longrightarrow> omitted smtp_tag smtp_fields g kvs \<longrightarrow>
               member (smtp_tag g) (encode_smtp L blk) = member (smtp_tag g) (zero_block L))
             js blks))"
proof -
  from handleUpdateSettings_JSON [OF assms] obtain s b where
    s: "Bind L body = Inr s" and b: "json_Marshal L s = Inr b"
    and h: "has_enabled (slice_elems (SMTP s))" and f: "failure = None" by blast
  note su = handleUpdateSettings_success [OF s b h]
  from su [of running app] assms f have 1: "stored app' = b"
    by (cases running) auto
  have 2: "stored (fst (snd (handleUpdateSettings L body failure running app2))) = b" for app2
    using su [of running app2] f by (cases running) auto
  have 3: "member (settings_tag g) b = member (settings_tag g) (zero_document L)"
    if "body = JSONBody (JObj kvs)" and "omitted settings_tag settings_fields g kvs" for kvs g
  proof -
    from s that(1) have "json_Unmarshal L (JObj kvs) zero_settings = Inr s"
      by (auto simp: Bind_def split: sum.splits)
    from omitted_field_zero [OF this that(2) b json_Marshal_zero] show ?thesis .
  qed
  have 4: "\<exists>blks. member (settings_tag F_SMTP) b = Some (JArr (map (encode_smtp L) blks)) \<and>
           list_all2 (\<lambda>j blk. \<forall>kvs g. j = JObj kvs \<longrightarrow> omitted smtp_tag smtp_fields g kvs \<longrightarrow>
               member (smtp_tag g) (encode_smtp L blk) = member (smtp_tag g) (zero_block L))
             js blks"
    if "body = JSONBody (JObj (pre @ (k, JArr js) # post))"
      and "find_field settings_tag settings_fields k = Some F_SMTP"
      and "omitted settings_tag settings_fields F_SMTP (pre @ post)" for pre k js post
  proof -
    from s that(1) have "json_Unmarshal L (JObj (pre @ (k, JArr js) # post)) zero_settings = Inr s"
      by (auto simp: Bind_def split: sum.splits)
    from single_smtp_member [OF this that(2,3)] obtain blks where
      blks: "SMTP s = Some blks"
      and l: "list_all2 (\<lambda>j blk. decode_smtp L j zero_smtp = Inr blk) js blks" by blast
    from json_Marshal_member [OF b, of F_SMTP] blks
    have m: "member (settings_tag F_SMTP) b = Some (JArr (map (encode_smtp L) blks))"
      by (simp add: encode_slice_def del: settings_tag.simps)
    from l have "list_all2 (\<lambda>j blk. \<forall>kvs g. j = JObj kvs \<longrightarrow> omitted smtp_tag smtp_fields g kvs \<longrightarrow>
               member (smtp_tag g) (encode_smtp L blk) = member (smtp_tag g) (zero_block L))
             js blks"
      by (rule list_all2_mono) (auto simp: encode_smtp_zero [symmetric] intro: omitted_block_field_zero)
    with m show ?thesis by blast
  qed
  from s b 1 2 3 4 json_Marshal_zero [of L] encode_smtp_zero [of L] show ?thesis by blast
qed


lemma Bind_sample_request: "Bind strconv_int (JSONBody sample_request) = Inr sample_settings"
  by (simp add: Bind_def Unmarshal_sample_request)

theorem update_persists_reencoding_witness:
  "member ''upload.s3.aws_secret_access_key''
     (stored (fst (snd (handleUpdateSettings strconv_int (JSONBody sample_request) None False
        (initial_app stored_with_secrets))))) = Some (JStr []) \<and>
   member ''app.root_url''
     (stored (fst (snd (handleUpdateSettings strconv_int (JSONBody sample_request) None False
        (initial_app stored_with_secrets))))) = Some (JStr []) \<and>
   (\<exists>blk. member ''smtp''
       (stored (fst (snd (handleUpdateSettings strconv_int (JSONBody sample_request) None False
          (initial_app stored_with_secrets))))) = Some (JArr [blk]) \<and>
     member ''password'' blk = Some (JStr []) \<and> member ''host'' blk = Some (JStr ''mx''))"
proof -
  let ?app = "initial_app stored_with_secrets"
  let ?kvs = "[(''SMTP'', JArr [JObj [(''enabled'', JBool True), (''Host'', JStr ''mx''),
                                   (''port'', JNum 25),
                                   (''email_headers'',
                                      JArr [JObj [(''X-B'', JStr ''2''), (''X-A'', JStr ''1'')]])]]),
           (''unknown'', JNum 3),
           (''messengers'', JArr [JObj [(''b'', JNum 1), (''a'', JNull)]]),
           (''app.batch_size'', JNum 1000)] :: (string \<times> int json) list"
  let ?blk = "[(''enabled'', JBool True), (''Host'', JStr ''mx''), (''port'', JNum 25),
               (''email_headers'', JArr [JObj [(''X-B'', JStr ''2''), (''X-A'', JStr ''1'')]])]
              :: (string \<times> int json) list"
  from Bind_Marshal [OF strconv_int_roundtrips Bind_sample_request] obtain b0 where
    b0: "json_Marshal strconv_int sample_settings = Inr b0" by blast
  have en: "has_enabled (slice_elems (SMTP sample_settings))"
    by (simp add: sample_settings_def slice_elems_def)
  let ?app' = "?app\<lparr>stored := b0, reloads := reloads ?app @ [(500, SIGHUP)]\<rparr>"
  have e: "handleUpdateSettings strconv_int (JSONBody sample_request) None False ?app =
      (JSON StatusOK (DataBool True), ?app',
       [StepBind, StepMarshal, StepCheckSMTP, StepExec, StepHasRunningCampaigns, StepGoReload])"
    using handleUpdateSettings_success [OF Bind_sample_request b0 en, of False ?app] by simp
  from update_persists_reencoding [OF e] obtain s b where
    st: "stored ?app' = b"
    and top: "\<And>kvs f. JSONBody sample_request = JSONBody (JObj kvs) \<Longrightarrow>
        omitted settings_tag settings_fields f kvs \<Longrightarrow>
        member (settings_tag f) b = member (settings_tag f) (zero_document strconv_int)"
    and blk: "\<And>pre k js post.
        JSONBody sample_request = JSONBody (JObj (pre @ (k, JArr js) # post)) \<Longrightarrow>
        find_field settings_tag settings_fields k = Some F_SMTP \<Longrightarrow>
        omitted settings_tag settings_fields F_SMTP (pre @ post) \<Longrightarrow>
        (\<exists>blks. member (settings_tag F_SMTP) b = Some (JArr (map (encode_smtp strconv_int) blks)) \<and>
           list_all2 (\<lambda>j blk. \<forall>kvs g. j = JObj kvs \<longrightarrow> omitted smtp_tag smtp_fields g kvs \<longrightarrow>
               member (smtp_tag g) (encode_smtp strconv_int blk)
                 = member (smtp_tag g) (zero_block strconv_int))
             js blks)"
    by blast
  have body: "JSONBody sample_request = JSONBody (JObj ?kvs)"
    by (simp add: sample_request_def)
  have o1: "omitted settings_tag settings_fields F_UploadS3AwsSecretAccessKey ?kvs"
    and o2: "omitted settings_tag settings_fields F_AppRootURL ?kvs"
    by (simp_all add: omitted_def find_settings_field upper_ascii_Char)
  from top [OF body o1] have m1: "member ''upload.s3.aws_secret_access_key'' b = Some (JStr [])"
    by (simp add: zero_document_def member_def)
  from top [OF body o2] have m2: "member ''app.root_url'' b = Some (JStr [])"
    by (simp add: zero_document_def member_def)
  have body2: "JSONBody sample_request = JSONBody (JObj ([] @ (''SMTP'', JArr [JObj ?blk]) # tl ?kvs))"
    by (simp add: sample_request_def)
  have k: "find_field settings_tag settings_fields ''SMTP'' = Some F_SMTP"
    by (simp add: find_settings_field upper_ascii_Char)
  have o3: "omitted settings_tag settings_fields F_SMTP ([] @ tl ?kvs)"
    by (simp add: omitted_def find_settings_field upper_ascii_Char)
  from blk [OF body2 k o3] obtain blks where
    ms: "member (settings_tag F_SMTP) b = Some (JArr (map (encode_smtp strconv_int) blks))"
    and l: "list_all2 (\<lambda>j blk. \<forall>kvs g. j = JObj kvs \<longrightarrow> omitted smtp_tag smtp_fields g kvs \<longrightarrow>
               member (smtp_tag g) (encode_smtp strconv_int blk)
                 = member (smtp_tag g) (zero_block strconv_int))
             [JObj ?blk] blks"
    by blast
  from l obtain x where x: "blks = [x]"
    and px: "\<And>g. omitted smtp_tag smtp_fields g ?blk \<Longrightarrow>
               member (smtp_tag g) (encode_smtp strconv_int x)
                 = member (smtp_tag g) (zero_block strconv_int)"
    by (auto simp: list_all2_Cons1)
  have "omitted smtp_tag smtp_fields F_Password ?blk"
    by (simp add: omitted_def find_smtp_field upper_ascii_Char)
  from px [OF this] have m3: "member ''password'' (encode_smtp strconv_int x) = Some (JStr [])"
    by (simp add: zero_block_def member_def)
  from b0 st have "b = b0" by simp
  with json_Marshal_member [OF b0, of F_SMTP] ms x
  have "encode_smtp strconv_int x = encode_smtp strconv_int
      (zero_smtp\<lparr>Enabled := True, Host := ''mx'', Port := 25,
                        EmailHeaders := Some [Some [(''X-A'', ''1''), (''X-B'', ''2'')]]\<rparr>)"
    by (simp add: sample_settings_def encode_slice_def del: settings_tag.simps)
  then have m4: "member ''host'' (encode_smtp strconv_int x) = Some (JStr ''mx'')"
    by (simp add: encode_smtp_def smtp_fields_def member_def)
  from ms x have m5: "member ''smtp'' b = Some (JArr [encode_smtp strconv_int x])" by simp
  from m1 m2 m3 m4 m5 st show ?thesis unfolding e by auto
qed

end
